(* ===== verification/Prelude.thy ===== *)
theory Prelude
  imports Main "HOL-Library.Sublist"
begin

text \<open>
  Shared vocabulary of the aspect-extractor development
  (\<open>src/src/setfit/span/aspect_extractor.py\<close>): the Python list and string
  primitives the source relies on, written out with Python's meaning, and the
  generic list lemmas the component theories share.
  \<^item> \<open>py_nth\<close> is Python indexing with a possibly negative index;
  \<^item> \<open>py_del\<close> is the statement \<open>del xs[i]\<close>;
  \<^item> \<open>py_in_str\<close> is the operator \<open>in\<close> between two strings (substring test),
    which is what \<open>x in ('NOUN')\<close> evaluates, the parentheses not making a tuple.
  \<^item> \<open>py_getitem\<close> is \<open>xs[i]\<close> with Python's \<open>IndexError\<close> as a value
    \<open>Inl IndexError\<close>, and \<open>py_bind\<close> passes an error on as a raised exception
    propagates.
  The collection \<open>py_simps\<close> gathers the evaluation rules of these primitives.
\<close>

named_theorems py_simps "evaluation rules of the Python primitives"

definition py_nth :: "'a list \<Rightarrow> int \<Rightarrow> 'a" where
  "py_nth xs k = xs ! nat (if k < 0 then int (length xs) + k else k)"

definition py_del :: "'a list \<Rightarrow> nat \<Rightarrow> 'a list" where
  "py_del xs i = take i xs @ drop (Suc i) xs"

definition py_in_str :: "string \<Rightarrow> string \<Rightarrow> bool" where
  "py_in_str s t = sublist s t"

datatype py_error = IndexError

definition py_getitem :: "'a list \<Rightarrow> int \<Rightarrow> py_error + 'a" where
  "py_getitem xs i =
     (if - int (length xs) \<le> i \<and> i < int (length xs) then Inr (py_nth xs i) else Inl IndexError)"

text \<open>\<open>xs[i] = v\<close> and \<open>del xs[i]\<close> on a list: both raise \<open>IndexError\<close> out of
  range and count a negative index from the end.\<close>

definition py_setitem :: "'a list \<Rightarrow> int \<Rightarrow> 'a \<Rightarrow> py_error + 'a list" where
  "py_setitem xs i v =
     (if - int (length xs) \<le> i \<and> i < int (length xs)
      then Inr (xs[nat (if i < 0 then int (length xs) + i else i) := v]) else Inl IndexError)"

definition py_delitem :: "'a list \<Rightarrow> int \<Rightarrow> py_error + 'a list" where
  "py_delitem xs i =
     (if - int (length xs) \<le> i \<and> i < int (length xs)
      then Inr (py_del xs (nat (if i < 0 then int (length xs) + i else i))) else Inl IndexError)"

definition py_bind :: "py_error + 'a \<Rightarrow> ('a \<Rightarrow> py_error + 'b) \<Rightarrow> py_error + 'b" where
  "py_bind r f = (case r of Inl e \<Rightarrow> Inl e | Inr x \<Rightarrow> f x)"

lemma py_nth_nat [py_simps]: "py_nth xs (int k) = xs ! k"
  by (simp add: py_nth_def)

lemma py_nth_pred [py_simps]: "0 < k \<Longrightarrow> py_nth xs (int k - 1) = xs ! (k - 1)"
  by (simp add: py_nth_def nat_diff_distrib')

lemma py_getitem_nat [py_simps]: "k < length xs \<Longrightarrow> py_getitem xs (int k) = Inr (xs ! k)"
  by (simp add: py_getitem_def py_nth_def)

lemma py_getitem_nat_out [py_simps]: "length xs \<le> k \<Longrightarrow> py_getitem xs (int k) = Inl IndexError"
  by (simp add: py_getitem_def)

lemma py_getitem_Suc [py_simps]: "Suc k < length xs \<Longrightarrow> py_getitem xs (1 + int k) = Inr (xs ! Suc k)"
  by (simp add: py_getitem_def py_nth_def nat_add_distrib)

lemma py_getitem_pred [py_simps]:
  "0 < k \<Longrightarrow> k \<le> length xs \<Longrightarrow> py_getitem xs (int k - 1) = Inr (xs ! (k - 1))"
  by (simp add: py_getitem_def py_nth_pred)

lemma py_setitem_pred [py_simps]:
  "0 < k \<Longrightarrow> k \<le> length xs \<Longrightarrow> py_setitem xs (int k - 1) v = Inr (xs[k - 1 := v])"
  by (simp add: py_setitem_def nat_diff_distrib')

lemma py_delitem_nat [py_simps]: "k < length xs \<Longrightarrow> py_delitem xs (int k) = Inr (py_del xs k)"
  by (simp add: py_delitem_def)

lemma py_bind_simps [simp]: "py_bind (Inr x) f = f x" "py_bind (Inl e) f = Inl e"
  by (simp_all add: py_bind_def)

text \<open>Updating two positions of a list that ends a given prefix.\<close>

lemma nth_append_length_Cons [simp]:
  "length xs = i \<Longrightarrow> (xs @ a # ys) ! i = a"
  by (simp add: nth_append)

lemma nth_append_length_Suc [simp]:
  "length xs = i \<Longrightarrow> (xs @ a # b # ys) ! Suc i = b"
  by (simp add: nth_append)

lemma update_append_length [simp]:
  "length xs = i \<Longrightarrow> (xs @ a # ys)[i := c] = xs @ c # ys"
  by (simp add: list_update_append)

lemma drop_nth_Cons: "i < length xs \<Longrightarrow> drop i xs = xs ! i # drop (Suc i) xs"
  by (rule Cons_nth_drop_Suc [symmetric])

lemma take_Suc_nth: "i < length xs \<Longrightarrow> take (Suc i) xs = take i xs @ [xs ! i]"
  by (rule take_Suc_conv_app_nth)

text \<open>Splitting a downward range of indices at one of its elements.\<close>

lemma rev_upt_split: "a \<le> k \<Longrightarrow> k < b \<Longrightarrow> rev [a..<b] = rev [Suc k..<b] @ k # rev [a..<k]"
proof -
  assume "a \<le> k" "k < b"
  then have "[a..<b] = [a..<k] @ [k..<b]" using upt_add_eq_append [of a k "b - k"] by simp
  also have "[k..<b] = k # [Suc k..<b]" using \<open>k < b\<close> by (rule upt_conv_Cons)
  finally show ?thesis by simp
qed

end
