(* ===== verification/Tokens.thy ===== *)
theory Tokens
  imports Prelude
begin

text \<open>
  The token source. The program never tokenises or parses: it receives spaCy
  \<open>Doc\<close> objects and reads, per token, the attributes \<open>text\<close>, \<open>lower_\<close>,
  \<open>pos_\<close>, \<open>whitespace_\<close> and \<open>left_edge.i\<close>; the token's own index
  \<open>token.i\<close> is its position in the list. A \<open>Doc\<close> is the list of its tokens.
  The two spaCy operations the program calls, slicing a \<open>Doc\<close> and taking the
  \<open>text\<close> of a span, are modelled after spaCy's definitions
  (\<open>normalize_slice\<close> and \<open>Span.text\<close>), since that code is not part of the
  repository.
\<close>

record token =
  tok_text :: string
  tok_lower :: string
  tok_pos :: string
  tok_ws :: string
  tok_left_edge :: nat

type_synonym doc = "token list"

text \<open>
  \<open>doc[a:b]\<close> for non-negative bounds: spaCy clamps both bounds into
  \<open>[0, len(doc)]\<close> and a slice with \<open>b \<le> a\<close> is empty.
\<close>

definition doc_slice :: "doc \<Rightarrow> nat \<Rightarrow> nat \<Rightarrow> token list" where
  "doc_slice d a b = take (b - a) (drop a d)"

text \<open>
  \<open>Span.text\<close>: the tokens' texts each followed by its trailing whitespace, with
  the whitespace of the last token cut off.
\<close>

definition span_text :: "token list \<Rightarrow> string" where
  "span_text ts =
     (let s = concat (map (\<lambda>t. tok_text t @ tok_ws t) ts)
      in if ts \<noteq> [] \<and> tok_ws (last ts) \<noteq> [] then butlast s else s)"

text \<open>\<open>Doc.text\<close>: every token's text with its trailing whitespace, nothing cut.\<close>

definition doc_text :: "doc \<Rightarrow> string" where
  "doc_text d = concat (map (\<lambda>t. tok_text t @ tok_ws t) d)"

lemma length_doc_slice [simp]:
  "length (doc_slice d a b) = min (b - a) (length d - a)"
  by (simp add: doc_slice_def)

lemma doc_slice_empty_iff: "doc_slice d a b = [] \<longleftrightarrow> b \<le> a \<or> length d \<le> a"
  by (auto simp: doc_slice_def)

lemma span_text_Nil [simp]: "span_text [] = []"
  by (simp add: span_text_def)

text \<open>Two adjacent slices of a document make up the slice that spans both.\<close>

lemma doc_slice_append:
  "a \<le> b \<Longrightarrow> b \<le> c \<Longrightarrow> doc_slice d a b @ doc_slice d b c = doc_slice d a c"
proof -
  assume ab: "a \<le> b" and bc: "b \<le> c"
  then have "c - a = (b - a) + (c - b)" by simp
  moreover have "drop (b - a) (drop a d) = drop b d" using ab by simp
  ultimately show ?thesis by (simp add: doc_slice_def take_add)
qed

lemma last_doc_slice: "a < b \<Longrightarrow> b \<le> length d \<Longrightarrow> last (doc_slice d a b) = d ! (b - 1)"
  by (cases "b = length d") (auto simp: doc_slice_def last_conv_nth min_def)

text \<open>The text of a span whose first part ends with no whitespace is the text of
  the first part followed by the text of the rest.\<close>

lemma span_text_append:
  assumes "xs \<noteq> []" and "tok_ws (last xs) = []"
  shows "span_text (xs @ ys) = span_text xs @ span_text ys"
proof (cases "ys = []")
  case True
  then show ?thesis by simp
next
  case False
  let ?c = "\<lambda>ts. concat (map (\<lambda>t. tok_text t @ tok_ws t) ts)"
  have "tok_ws (last ys) \<noteq> [] \<Longrightarrow> ?c ys \<noteq> []"
    using False by (cases ys rule: rev_cases) auto
  then show ?thesis using assms False by (auto simp: span_text_def Let_def butlast_append)
qed

end
