(* ===== verification/Aspect.thy ===== *)
theory Aspect
  imports Tokens
begin

text \<open>
  The class \<open>Aspect\<close> (lines 9--98 of \<open>aspect_extractor.py\<close>): two slices of a
  document, the reduced slice that names the aspect and the context slice handed
  to the polarity model, with the counters that bound how far \<open>expand\<close> may widen
  the context. The Python object is mutated in place by \<open>expand\<close> and by the
  assignment of \<open>ordinal\<close>; here \<open>expand\<close> returns the updated record together
  with its Boolean result. The optional fields \<open>_context_start\<close> and
  \<open>_context_stop\<close> are kept as options, as in the source, and read through the
  properties \<open>context_start\<close> and \<open>context_stop\<close>.
  The invariant \<open>aspect_wf\<close> is the well-formedness of spec section 3; \<open>expand\<close>
  keeps it, never touches the reduced slice, and uses up one unit of a budget of
  at most five expansions whenever it succeeds.
\<close>

record aspect =
  aspect_doc :: doc
  reduced_slice :: "nat \<times> nat"
  context_start_opt :: "nat option"
  context_stop_opt :: "nat option"
  expansion_left :: nat
  expansion_right :: nat
  ordinal :: nat
  label :: string
  categories :: "string set"

definition max_expansion_left :: nat where
  "max_expansion_left = 2"

definition max_expansion_right :: nat where
  "max_expansion_right = 3"

text \<open>\<open>Aspect.__init__(doc, start, stop, context_start=None, context_stop=None)\<close>.\<close>

definition aspect_init :: "doc \<Rightarrow> nat \<Rightarrow> nat \<Rightarrow> nat option \<Rightarrow> nat option \<Rightarrow> aspect" where
  "aspect_init d s e cs ce =
     \<lparr>aspect_doc = d, reduced_slice = (s, e), context_start_opt = cs, context_stop_opt = ce,
      expansion_left = 0, expansion_right = 0, ordinal = 0, label = [], categories = {}\<rparr>"

definition start :: "aspect \<Rightarrow> nat" where
  "start a = fst (reduced_slice a)"

definition stop :: "aspect \<Rightarrow> nat" where
  "stop a = snd (reduced_slice a)"

definition context_start :: "aspect \<Rightarrow> nat" where
  "context_start a = (case context_start_opt a of None \<Rightarrow> start a | Some c \<Rightarrow> c)"

definition context_stop :: "aspect \<Rightarrow> nat" where
  "context_stop a = (case context_stop_opt a of None \<Rightarrow> stop a | Some c \<Rightarrow> c)"

text \<open>The two separators \<open>expand\<close> never crosses.\<close>

definition expand_barriers :: "string list" where
  "expand_barriers = ['','', '';'']"

text \<open>
  \<open>Aspect.expand\<close>: widen the context one token to the left if allowed, else one
  token to the right if allowed, else fail.
\<close>

definition expand :: "aspect \<Rightarrow> aspect \<times> bool" where
  "expand a =
     (let d = aspect_doc a in
      if 0 < context_start a \<and> expansion_left a < max_expansion_left
         \<and> tok_text (d ! (context_start a - 1)) \<notin> set expand_barriers
      then (a\<lparr>context_start_opt := Some (context_start a - 1),
              expansion_left := Suc (expansion_left a)\<rparr>, True)
      else if context_stop a < length d \<and> expansion_right a < max_expansion_right
         \<and> tok_text (d ! context_stop a) \<notin> set expand_barriers
      then (a\<lparr>context_stop_opt := Some (Suc (context_stop a)),
              expansion_right := Suc (expansion_right a)\<rparr>, True)
      else (a, False))"

text \<open>The properties \<open>text\<close> (also \<open>__str__\<close>) and \<open>context\<close>.\<close>

definition aspect_text :: "aspect \<Rightarrow> string" where
  "aspect_text a = span_text (doc_slice (aspect_doc a) (start a) (stop a))"

definition aspect_context :: "aspect \<Rightarrow> string" where
  "aspect_context a = span_text (doc_slice (aspect_doc a) (context_start a) (context_stop a))"

text \<open>
  \<open>Aspect.__eq__(self, other)\<close> dispatches on the type of \<open>other\<close>: another
  aspect is compared by context text, a string by reduced text, anything else is
  unequal. \<open>!=\<close> is Python's default negation of \<open>__eq__\<close>.
\<close>

datatype eq_operand = AspectOp aspect | StrOp string | OtherOp

definition aspect_eq :: "aspect \<Rightarrow> eq_operand \<Rightarrow> bool" where
  "aspect_eq a other =
     (case other of
        AspectOp b \<Rightarrow> aspect_context a = aspect_context b
      | StrOp s \<Rightarrow> aspect_text a = s
      | OtherOp \<Rightarrow> False)"

subsection \<open>Invariant and expansion budget\<close>

definition aspect_wf :: "doc \<Rightarrow> aspect \<Rightarrow> bool" where
  "aspect_wf d a \<longleftrightarrow>
     aspect_doc a = d \<and> context_start a \<le> start a \<and> start a < stop a
     \<and> stop a \<le> context_stop a \<and> context_stop a \<le> length d
     \<and> expansion_left a \<le> max_expansion_left \<and> expansion_right a \<le> max_expansion_right"

definition budget :: "aspect \<Rightarrow> nat" where
  "budget a = (max_expansion_left - expansion_left a) + (max_expansion_right - expansion_right a)"

lemmas aspect_accessors = start_def stop_def context_start_def context_stop_def

lemma aspect_init_fields [simp]:
  "start (aspect_init d s e cs ce) = s"
  "stop (aspect_init d s e cs ce) = e"
  "aspect_doc (aspect_init d s e cs ce) = d"
  "context_start (aspect_init d s e cs ce) = (case cs of None \<Rightarrow> s | Some c \<Rightarrow> c)"
  "context_stop (aspect_init d s e cs ce) = (case ce of None \<Rightarrow> e | Some c \<Rightarrow> c)"
  "expansion_left (aspect_init d s e cs ce) = 0"
  "expansion_right (aspect_init d s e cs ce) = 0"
  "ordinal (aspect_init d s e cs ce) = 0"
  by (simp_all add: aspect_init_def aspect_accessors split: option.splits)

lemma aspect_update_accessors [simp]:
  "start (a\<lparr>context_start_opt := x\<rparr>) = start a" "stop (a\<lparr>context_start_opt := x\<rparr>) = stop a"
  "start (a\<lparr>context_stop_opt := x\<rparr>) = start a" "stop (a\<lparr>context_stop_opt := x\<rparr>) = stop a"
  "start (a\<lparr>expansion_left := n\<rparr>) = start a" "stop (a\<lparr>expansion_left := n\<rparr>) = stop a"
  "start (a\<lparr>expansion_right := n\<rparr>) = start a" "stop (a\<lparr>expansion_right := n\<rparr>) = stop a"
  "start (a\<lparr>ordinal := n\<rparr>) = start a" "stop (a\<lparr>ordinal := n\<rparr>) = stop a"
  "context_start (a\<lparr>context_start_opt := Some c\<rparr>) = c"
  "context_stop (a\<lparr>context_start_opt := x\<rparr>) = context_stop a"
  "context_start (a\<lparr>context_stop_opt := x\<rparr>) = context_start a"
  "context_stop (a\<lparr>context_stop_opt := Some c\<rparr>) = c"
  "context_start (a\<lparr>expansion_left := n\<rparr>) = context_start a"
  "context_stop (a\<lparr>expansion_left := n\<rparr>) = context_stop a"
  "context_start (a\<lparr>expansion_right := n\<rparr>) = context_start a"
  "context_stop (a\<lparr>expansion_right := n\<rparr>) = context_stop a"
  "context_start (a\<lparr>ordinal := n\<rparr>) = context_start a"
  "context_stop (a\<lparr>ordinal := n\<rparr>) = context_stop a"
  by (simp_all add: aspect_accessors split: option.splits)

lemma aspect_ordinal_update [simp]:
  "aspect_text (a\<lparr>ordinal := n\<rparr>) = aspect_text a"
  "aspect_context (a\<lparr>ordinal := n\<rparr>) = aspect_context a"
  "budget (a\<lparr>ordinal := n\<rparr>) = budget a"
  by (simp_all add: aspect_text_def aspect_context_def budget_def)

lemma aspect_wf_ordinal_update [simp]: "aspect_wf d (a\<lparr>ordinal := n\<rparr>) = aspect_wf d a"
  by (simp add: aspect_wf_def)

lemma expand_frame [simp]:
  "aspect_doc (fst (expand a)) = aspect_doc a"
  "start (fst (expand a)) = start a"
  "stop (fst (expand a)) = stop a"
  "ordinal (fst (expand a)) = ordinal a"
  "aspect_text (fst (expand a)) = aspect_text a"
  by (simp_all add: expand_def Let_def aspect_text_def)

lemma expand_fail: "\<not> snd (expand a) \<Longrightarrow> fst (expand a) = a"
  by (auto simp: expand_def Let_def split: if_splits)

text \<open>A successful expansion uses up exactly one unit of the budget.\<close>

lemma expand_budget:
  "budget (fst (expand a)) + (if snd (expand a) then 1 else 0) = budget a"
  by (auto simp: expand_def Let_def budget_def)

lemma expand_budget_less: "snd (expand a) \<Longrightarrow> budget (fst (expand a)) < budget a"
  using expand_budget [of a] by simp

lemma expand_context_bounds:
  "context_start (fst (expand a)) \<le> context_start a"
  "context_stop a \<le> context_stop (fst (expand a))"
  by (auto simp: expand_def Let_def)

text \<open>\<open>expand\<close> moves a context bound by exactly the step it counts: the context
  bounds corrected by the counters stay where they were.\<close>

lemma expand_anchor:
  "context_start (fst (expand a)) + expansion_left (fst (expand a)) = context_start a + expansion_left a"
  "context_stop (fst (expand a)) + expansion_right a = context_stop a + expansion_right (fst (expand a))"
  by (auto simp: expand_def Let_def)

text \<open>\<open>expand\<close> keeps the well-formedness invariant of an aspect.\<close>

lemma expand_wf: "aspect_wf d a \<Longrightarrow> aspect_wf d (fst (expand a))"
  by (auto simp: expand_def Let_def aspect_wf_def)

text \<open>A non-empty reduced text needs a non-empty reduced slice inside the document.\<close>

lemma aspect_text_nonempty:
  "aspect_text a \<noteq> [] \<Longrightarrow> start a < stop a \<and> start a < length (aspect_doc a)"
proof -
  assume "aspect_text a \<noteq> []"
  then have "doc_slice (aspect_doc a) (start a) (stop a) \<noteq> []"
    by (auto simp: aspect_text_def)
  then show ?thesis by (simp add: doc_slice_empty_iff)
qed

text \<open>
  C20 (invariant): \<open>expand\<close> keeps an aspect well formed, leaves its reduced text
  alone, and a successful call uses up exactly one unit of the expansion budget.
\<close>

theorem expand_preserves_wf:
  assumes "aspect_wf d a"
  shows "aspect_wf d (fst (expand a)) \<and> aspect_text (fst (expand a)) = aspect_text a
    \<and> budget (fst (expand a)) + (if snd (expand a) then 1 else 0) = budget a"
  using expand_wf [OF assms] expand_budget [of a] by simp

end
