(* ===== verification/Chunk_Reducer.thy ===== *)
theory Chunk_Reducer
  imports Aspect
begin

text \<open>
  The constants of class \<open>AspectExtractor\<close> (lines 104--121) and the method
  \<open>_reduce_noun_chunk\<close> (lines 142--177). The method is two loops: a forward
  scan for the first token that is neither punctuation nor a possessive
  (\<open>full_start\<close>), and a backward scan from the end of the chunk that either keeps
  the whole chunk, rejects it (\<open>return None\<close>, here \<open>None\<close>), or cuts it after the
  last token that may not stand in front of a noun (\<open>reduce_scan\<close>).
  \<open>POS_WHITELIST = ('NOUN')\<close> is a string, not a tuple, so \<open>pos_ in POS_WHITELIST\<close>
  is a substring test (\<open>in_pos_whitelist\<close>).
\<close>

definition non_noun_aspects :: "string list" where
  "non_noun_aspects = [''acted'', ''directed'', ''edited'', ''emotionally'', ''filmed'',
     ''visually'', ''written'']"

text \<open>The possessive token \<open>'s\<close>.\<close>

definition possessive :: string where
  "possessive = CHR 0x27 # ''s''"

definition chunk_exceptions :: "string list" where
  "chunk_exceptions = [''emotional'', ''musical'', ''visual'', ''cinematic'', ''generated'',
     ''set'', ''special'', ''comic'', ''another'', ''other'', possessive, ''-'', ''/'', '','', ''and'']"

definition chunk_stop_words :: "string list" where
  "chunk_stop_words = [''level'', ''minute'', ''minutes'']"

definition movie_synonyms :: "string list" where
  "movie_synonyms = [''entry'', ''flick'', ''film'', ''mess'', ''movie'', ''installment'', ''version'']"

definition pos_whitelist :: string where
  "pos_whitelist = ''NOUN''"

definition noun_substitute :: string where
  "noun_substitute = ''overall''"

definition in_pos_whitelist :: "string \<Rightarrow> bool" where
  "in_pos_whitelist p = py_in_str p pos_whitelist"

text \<open>The tokens after which a cut skips two more tokens (line 170).\<close>

definition clean_joiners :: "string list" where
  "clean_joiners = [possessive, ''-'', ''/'', '','', ''and'']"

text \<open>Lines 150--155: the first token of \<open>[start, stop)\<close> that is not \<open>X\<close>, not
  \<open>PUNCT\<close> and not \<open>'s\<close>, or \<open>start\<close> when there is none.\<close>

definition full_start :: "doc \<Rightarrow> nat \<Rightarrow> nat \<Rightarrow> nat" where
  "full_start d start0 stop0 =
     (case find (\<lambda>i. tok_pos (d ! i) \<notin> set [''X'', ''PUNCT''] \<and> tok_lower (d ! i) \<noteq> possessive)
                [start0..<stop0] of
        None \<Rightarrow> start0
      | Some i \<Rightarrow> i)"

text \<open>Line 161: the chunk reads "this ... movie" and is kept whole.\<close>

definition keeps_this_chunk :: "doc \<Rightarrow> nat \<Rightarrow> nat \<Rightarrow> bool" where
  "keeps_this_chunk d fs i \<longleftrightarrow> tok_lower (d ! i) \<in> set movie_synonyms \<and> tok_lower (d ! fs) = ''this''"

text \<open>A token that may not stand in front of the noun that ends the chunk (line 164).\<close>

definition cuts_chunk :: "token \<Rightarrow> bool" where
  "cuts_chunk t \<longleftrightarrow>
     tok_lower t \<in> set chunk_stop_words
     \<or> (\<not> in_pos_whitelist (tok_pos t) \<and> tok_lower t \<notin> set chunk_exceptions)"

text \<open>
  Lines 159--175: the loop \<open>for i in range(stop - 1, full_start - 1, -1)\<close> over the
  list of indices it visits. \<open>Some r\<close> is the value of \<open>reduced_start\<close> after the
  loop, \<open>None\<close> the early \<open>return None\<close>.
\<close>

fun reduce_scan :: "doc \<Rightarrow> nat \<Rightarrow> nat \<Rightarrow> nat list \<Rightarrow> nat option" where
  "reduce_scan d fs stop0 [] = Some fs"
| "reduce_scan d fs stop0 (i # is) =
     (if keeps_this_chunk d fs i then Some fs
      else if cuts_chunk (d ! i) then
        (if i = stop0 - 1 then None
         else if tok_text (d ! (i + 1)) \<in> set clean_joiners then Some (min (i + 3) (stop0 - 1))
         else Some (i + 1))
      else reduce_scan d fs stop0 is)"

definition reduce_noun_chunk :: "doc \<Rightarrow> nat \<Rightarrow> nat \<Rightarrow> aspect option" where
  "reduce_noun_chunk d start0 stop0 =
     (let fs = full_start d start0 stop0 in
      case reduce_scan d fs stop0 (rev [fs..<stop0]) of
        None \<Rightarrow> None
      | Some rs \<Rightarrow> Some (aspect_init d rs stop0 (Some fs) (Some stop0)))"

subsection \<open>Bounds of the two scans\<close>

lemma full_start_bounds:
  "start0 \<le> full_start d start0 stop0"
  "start0 < stop0 \<Longrightarrow> full_start d start0 stop0 < stop0"
  by (auto simp: full_start_def find_Some_iff split: option.splits)

lemma reduce_scan_bounds:
  "reduce_scan d fs e is = Some rs \<Longrightarrow> \<forall>k\<in>set is. fs \<le> k \<and> k < e \<Longrightarrow>
   fs \<le> rs \<and> (is \<noteq> [] \<longrightarrow> rs < e)"
proof (induction "is")
  case Nil
  then show ?case by simp
next
  case (Cons i "is")
  then show ?case by (cases "is") (auto split: if_splits)
qed

text \<open>Tokens that neither end the scan nor cut the chunk are stepped over.\<close>

lemma reduce_scan_skip:
  "\<forall>k\<in>set xs. \<not> keeps_this_chunk d fs k \<and> \<not> cuts_chunk (d ! k) \<Longrightarrow>
   reduce_scan d fs e (xs @ ys) = reduce_scan d fs e ys"
  by (induction xs) auto

text \<open>Only the chunk's last token can make the scan reject.\<close>

lemma reduce_scan_not_None:
  "\<forall>k\<in>set is. k \<noteq> e - 1 \<Longrightarrow> reduce_scan d fs e is \<noteq> None"
  by (induction "is") auto

lemma reduce_noun_chunk_Some:
  assumes "reduce_noun_chunk d s e = Some a"
  shows "aspect_doc a = d \<and> stop a = e \<and> context_stop a = e
    \<and> context_start a = full_start d s e \<and> s \<le> context_start a \<and> context_start a \<le> start a
    \<and> (s < e \<longrightarrow> start a < e)
    \<and> expansion_left a = 0 \<and> expansion_right a = 0 \<and> ordinal a = 0"
proof -
  let ?fs = "full_start d s e"
  from assms obtain rs where rs: "reduce_scan d ?fs e (rev [?fs..<e]) = Some rs"
    and a: "a = aspect_init d rs e (Some ?fs) (Some e)"
    by (auto simp: reduce_noun_chunk_def Let_def split: option.splits)
  have "?fs \<le> rs \<and> (rev [?fs..<e] \<noteq> [] \<longrightarrow> rs < e)"
    by (rule reduce_scan_bounds [OF rs]) auto
  moreover have "s < e \<Longrightarrow> rev [?fs..<e] \<noteq> []"
    using full_start_bounds(2) [of s e d] by simp
  ultimately show ?thesis using a full_start_bounds(1) [of s d e] by auto
qed

text \<open>A run of tokens none of which cuts is stepped over unless one of them keeps
  the whole "this ... movie" chunk.\<close>

lemma reduce_scan_no_cut:
  "\<forall>k\<in>set xs. \<not> cuts_chunk (d ! k) \<Longrightarrow>
   reduce_scan d fs e (xs @ ys) =
     (if \<exists>k\<in>set xs. keeps_this_chunk d fs k then Some fs else reduce_scan d fs e ys)"
  by (induction xs) auto

lemma reduce_noun_chunk_scan:
  "reduce_noun_chunk d s e =
     map_option (\<lambda>rs. aspect_init d rs e (Some (full_start d s e)) (Some e))
       (reduce_scan d (full_start d s e) e (rev [full_start d s e..<e]))"
  by (simp add: reduce_noun_chunk_def Let_def split: option.split)

subsection \<open>Behaviour of the reducer\<close>

text \<open>
  C4 (error): \<open>_reduce_noun_chunk\<close> rejects a chunk exactly when the chunk is
  not empty after \<open>full_start\<close>, its last token may not end an aspect (a stop word,
  or neither a noun nor an exception word), and the chunk does not read
  "this ... movie" at that token.
\<close>

theorem reduce_noun_chunk_None_iff:
  "reduce_noun_chunk d s e = None \<longleftrightarrow>
     full_start d s e < e \<and> \<not> keeps_this_chunk d (full_start d s e) (e - 1)
     \<and> cuts_chunk (d ! (e - 1))"
proof (cases "full_start d s e < e")
  case True
  let ?fs = "full_start d s e"
  have split: "rev [?fs..<e] = (e - 1) # rev [?fs..<e - 1]"
    using rev_upt_split [of ?fs "e - 1" e] True by simp
  have "reduce_scan d ?fs e (rev [?fs..<e - 1]) \<noteq> None"
    by (rule reduce_scan_not_None) auto
  then show ?thesis using True
    by (auto simp: reduce_noun_chunk_scan split)
next
  case False
  then show ?thesis by (simp add: reduce_noun_chunk_scan)
qed

text \<open>
  C5 (functional): when the scan from the end reaches a movie synonym of a chunk
  that starts with "this" before any token that would cut it, the chunk is kept
  whole: reduced and context slice are both \<open>[full_start, stop)\<close>.
\<close>

theorem reduce_keeps_this_movie:
  assumes "fs = full_start d s e" and "fs \<le> k" and "k < e"
    and "keeps_this_chunk d fs k"
    and "\<forall>j\<in>{k<..<e}. \<not> cuts_chunk (d ! j)"
  shows "reduce_noun_chunk d s e = Some (aspect_init d fs e (Some fs) (Some e))"
proof -
  have split: "rev [fs..<e] = rev [Suc k..<e] @ k # rev [fs..<k]"
    using assms(2,3) by (rule rev_upt_split)
  have "\<forall>j\<in>set (rev [Suc k..<e]). \<not> cuts_chunk (d ! j)"
    using assms(5) by auto
  then have "reduce_scan d fs e (rev [fs..<e]) = Some fs"
    using assms(4) by (simp add: split reduce_scan_no_cut)
  then show ?thesis using assms(1) by (simp add: reduce_noun_chunk_scan)
qed

text \<open>
  C6 (functional): when \<open>k\<close> is the last token of the chunk that cuts it, and it is
  not the chunk's final token, the reduced slice starts right after \<open>k\<close>, or two
  tokens further (bounded by the last token) when \<open>k\<close> is followed by a joiner
  such as \<open>-\<close> or \<open>'s\<close>; the context slice stays \<open>[full_start, stop)\<close>.
\<close>

theorem reduce_cut_position:
  assumes "fs = full_start d s e" and "fs \<le> k" and "Suc k < e"
    and "cuts_chunk (d ! k)" and "\<not> keeps_this_chunk d fs k"
    and "\<forall>j\<in>{k<..<e}. \<not> cuts_chunk (d ! j) \<and> \<not> keeps_this_chunk d fs j"
  shows "reduce_noun_chunk d s e =
    Some (aspect_init d (if tok_text (d ! Suc k) \<in> set clean_joiners then min (k + 3) (e - 1)
                         else Suc k) e (Some fs) (Some e))"
proof -
  have split: "rev [fs..<e] = rev [Suc k..<e] @ k # rev [fs..<k]"
    using assms(2,3) by (intro rev_upt_split) auto
  have "\<forall>j\<in>set (rev [Suc k..<e]). \<not> keeps_this_chunk d fs j \<and> \<not> cuts_chunk (d ! j)"
    using assms(6) by auto
  then have "reduce_scan d fs e (rev [fs..<e]) = reduce_scan d fs e (k # rev [fs..<k])"
    by (simp add: split reduce_scan_skip)
  then show ?thesis using assms(1,3,4,5) by (simp add: reduce_noun_chunk_scan)
qed

text \<open>
  C7 (functional): a chunk none of whose tokens cuts it is kept whole.
\<close>

theorem reduce_keeps_whole_chunk:
  assumes "fs = full_start d s e"
    and "\<forall>j\<in>{fs..<e}. \<not> cuts_chunk (d ! j)"
  shows "reduce_noun_chunk d s e = Some (aspect_init d fs e (Some fs) (Some e))"
proof -
  have "reduce_scan d fs e (rev [fs..<e] @ []) = Some fs"
    using assms(2) by (subst reduce_scan_no_cut) auto
  then show ?thesis using assms(1) by (simp add: reduce_noun_chunk_scan)
qed


text \<open>
  C28 (functional): with the tagger disabled (\<open>spacy_disable_pipes\<close> containing
  the tagger) every \<open>pos_\<close> is the empty string, and \<open>'' in 'NOUN'\<close> holds,
  so no token counts as "not a noun": every chunk without a stop word is accepted
  whole, from its first token to the end, never trimmed and never rejected; with
  the one-element tuple \<open>('NOUN',)\<close> that the comment of line 118 describes, the
  chunk's untagged last token would reject it. So "the acting was" becomes an
  aspect.
\<close>

theorem untagged_chunk_kept_whole:
  assumes "s < e" and "\<forall>k\<in>{s..<e}. tok_pos (d ! k) = [] \<and> tok_lower (d ! k) \<notin> set chunk_stop_words"
    and "tok_lower (d ! s) \<noteq> possessive"
  shows "reduce_noun_chunk d s e = Some (aspect_init d s e (Some s) (Some e))"
proof -
  have fs: "full_start d s e = s"
    using assms by (simp add: full_start_def upt_conv_Cons)
  have "\<forall>k\<in>set (rev [s..<e]). \<not> cuts_chunk (d ! k)"
    using assms(2) by (simp add: cuts_chunk_def in_pos_whitelist_def py_in_str_def)
  then have "reduce_scan d s e (rev [s..<e] @ []) = Some s"
    by (subst reduce_scan_no_cut) auto
  then show ?thesis using fs by (simp add: reduce_noun_chunk_scan)
qed

end
