(* ===== verification/Sentence_Scanner.thy ===== *)
theory Sentence_Scanner
  imports Chunk_Reducer
begin

text \<open>
  The first loop of \<open>AspectExtractor.__call__\<close> (lines 186--204): a walk over the
  tokens from right to left with a guard \<open>min_pos\<close>. A token under the
  POS whitelist starts a noun chunk from its \<open>left_edge\<close>, which the reducer
  trims or rejects; an accepted chunk is put in front of the list and moves
  \<open>min_pos\<close> to its context start. A whitelisted non-noun word becomes a
  one-token aspect. The loop state is the pair \<open>(min_pos, aspects)\<close>.
  The invariant \<open>scan_inv\<close> says that every aspect collected is well formed and
  fresh (no expansion yet, ordinal 0, context ending where the aspect ends), that
  their context slices are disjoint and in text order, and that all of them lie
  at or right of \<open>min_pos\<close>.
\<close>

definition scan_token :: "doc \<Rightarrow> nat \<times> aspect list \<Rightarrow> nat \<Rightarrow> nat \<times> aspect list" where
  "scan_token d st i =
     (let (min_pos, aspects) = st in
      if min_pos \<le> i then (min_pos, aspects)
      else
        let word = d ! i in
        if in_pos_whitelist (tok_pos word) then
          (case reduce_noun_chunk d (tok_left_edge word) (i + 1) of
             None \<Rightarrow> (min_pos, aspects)
           | Some chunk \<Rightarrow>
               if \<not> aspect_eq chunk (StrOp []) then (context_start chunk, chunk # aspects)
               else (min_pos, aspects))
        else if tok_lower word \<in> set non_noun_aspects then
          (i, aspect_init d i (i + 1) None None # aspects)
        else (min_pos, aspects))"

definition scan_aspects :: "doc \<Rightarrow> aspect list" where
  "scan_aspects d = snd (foldl (scan_token d) (length d, []) (rev [0..<length d]))"

definition fresh_aspect :: "aspect \<Rightarrow> bool" where
  "fresh_aspect a \<longleftrightarrow>
     expansion_left a = 0 \<and> expansion_right a = 0 \<and> ordinal a = 0 \<and> stop a = context_stop a"

definition contexts_disjoint :: "aspect list \<Rightarrow> bool" where
  "contexts_disjoint as \<longleftrightarrow> sorted_wrt (\<lambda>a b. context_stop a \<le> context_start b) as"

definition scan_inv :: "doc \<Rightarrow> nat \<times> aspect list \<Rightarrow> bool" where
  "scan_inv d st \<longleftrightarrow>
     fst st \<le> length d \<and> (\<forall>a\<in>set (snd st). aspect_wf d a \<and> fresh_aspect a \<and> fst st \<le> context_start a)
     \<and> contexts_disjoint (snd st)"

text \<open>The scan's invariant without its guard: well-formed fresh aspects with disjoint
  context slices in text order.\<close>

definition chunks_inv :: "doc \<Rightarrow> aspect list \<Rightarrow> bool" where
  "chunks_inv d as \<longleftrightarrow> (\<forall>a\<in>set as. aspect_wf d a \<and> fresh_aspect a) \<and> contexts_disjoint as"

text \<open>Where an aspect of the scan comes from: an accepted noun chunk of a whitelisted
  token, or a whitelisted non-noun word.\<close>

definition scan_origin :: "doc \<Rightarrow> aspect \<Rightarrow> bool" where
  "scan_origin d a \<longleftrightarrow>
     (\<exists>i<length d. in_pos_whitelist (tok_pos (d ! i))
        \<and> reduce_noun_chunk d (tok_left_edge (d ! i)) (Suc i) = Some a \<and> aspect_text a \<noteq> [])
     \<or> (\<exists>i<length d. \<not> in_pos_whitelist (tok_pos (d ! i))
        \<and> tok_lower (d ! i) \<in> set non_noun_aspects \<and> a = aspect_init d i (Suc i) None None)"

lemma scan_inv_init: "scan_inv d (length d, [])"
  by (simp add: scan_inv_def contexts_disjoint_def)

text \<open>An accepted noun chunk is a well-formed fresh aspect ending at the noun.\<close>

lemma scan_chunk_wf:
  assumes "reduce_noun_chunk d s (Suc i) = Some c" and "aspect_text c \<noteq> []" and "i < length d"
  shows "aspect_wf d c \<and> fresh_aspect c \<and> context_stop c = Suc i"
  using reduce_noun_chunk_Some [OF assms(1)] aspect_text_nonempty [OF assms(2)] assms(3)
  by (auto simp: aspect_wf_def fresh_aspect_def max_expansion_left_def max_expansion_right_def)

lemma scan_token_inv:
  assumes "scan_inv d st" and "i < length d"
  shows "scan_inv d (scan_token d st i)"
proof (cases st)
  case (Pair mp as)
  show ?thesis
  proof (cases "mp \<le> i")
    case True
    then show ?thesis using assms Pair by (simp add: scan_token_def)
  next
    case False
    have inv: "mp \<le> length d" "\<forall>a\<in>set as. aspect_wf d a \<and> fresh_aspect a \<and> mp \<le> context_start a"
      "contexts_disjoint as"
      using assms(1) Pair by (simp_all add: scan_inv_def)
    have chunk: "scan_inv d (context_start c, c # as)"
      if "reduce_noun_chunk d s (Suc i) = Some c" "aspect_text c \<noteq> []" for s c
    proof -
      have c: "aspect_wf d c" "fresh_aspect c" "context_stop c = Suc i"
        using scan_chunk_wf [OF that assms(2)] by auto
      then have "context_start c \<le> Suc i" by (auto simp: aspect_wf_def)
      then show ?thesis using c inv False
        by (auto simp: scan_inv_def contexts_disjoint_def aspect_wf_def)
    qed
    have single: "scan_inv d (i, aspect_init d i (Suc i) None None # as)"
      using inv False assms(2)
      by (auto simp: scan_inv_def contexts_disjoint_def aspect_wf_def fresh_aspect_def
          max_expansion_left_def max_expansion_right_def)
    show ?thesis using False Pair assms(1) chunk single
      by (auto simp: scan_token_def Let_def aspect_eq_def split: option.splits)
  qed
qed

lemma scan_fold_inv:
  "\<forall>i\<in>set xs. i < length d \<Longrightarrow> scan_inv d st \<Longrightarrow> scan_inv d (foldl (scan_token d) st xs)"
proof (induction xs arbitrary: st)
  case Nil
  then show ?case by simp
next
  case (Cons x xs)
  have "scan_inv d (scan_token d st x)"
    using Cons.prems by (simp add: scan_token_inv)
  then show ?case using Cons.IH Cons.prems(1) by simp
qed

lemma scan_token_origin:
  assumes "\<forall>a\<in>set (snd st). scan_origin d a" and "i < length d"
  shows "\<forall>a\<in>set (snd (scan_token d st i)). scan_origin d a"
  using assms
  by (cases st) (auto simp: scan_token_def Let_def aspect_eq_def scan_origin_def
      split: option.splits if_splits)

lemma scan_fold_origin:
  "\<forall>i\<in>set xs. i < length d \<Longrightarrow> \<forall>a\<in>set (snd st). scan_origin d a \<Longrightarrow>
   \<forall>a\<in>set (snd (foldl (scan_token d) st xs)). scan_origin d a"
proof (induction xs arbitrary: st)
  case Nil
  then show ?case by simp
next
  case (Cons x xs)
  have "\<forall>a\<in>set (snd (scan_token d st x)). scan_origin d a"
    using Cons.prems by (intro scan_token_origin) auto
  then show ?case using Cons.IH Cons.prems(1) by simp
qed

lemma scan_chunks_inv: "chunks_inv d (scan_aspects d)"
proof -
  have "scan_inv d (foldl (scan_token d) (length d, []) (rev [0..<length d]))"
    by (rule scan_fold_inv) (auto intro: scan_inv_init)
  then show ?thesis by (simp add: scan_aspects_def scan_inv_def chunks_inv_def)
qed

subsection \<open>Properties of the scan\<close>

text \<open>
  C9 (invariant): every aspect the scanner returns is well formed (context
  around a non-empty reduced slice inside the sentence, expansion counters within
  their caps), fresh, and the context slices of the list are disjoint and in
  left-to-right order.
\<close>

theorem scan_aspects_inv:
  "(\<forall>a\<in>set (scan_aspects d). aspect_wf d a \<and> fresh_aspect a)
   \<and> contexts_disjoint (scan_aspects d)"
  using scan_chunks_inv [of d] by (simp add: chunks_inv_def)

text \<open>
  C10 (safety): every aspect the scanner returns is an accepted, non-empty noun
  chunk reduced from the \<open>left_edge\<close> of a token under the POS whitelist, or a
  one-token aspect at a whitelisted non-noun word.
\<close>

theorem scan_aspects_origin:
  "\<forall>a\<in>set (scan_aspects d). scan_origin d a"
  unfolding scan_aspects_def by (rule scan_fold_origin) auto

end
