(* ===== verification/Chunk_Merger.thy ===== *)
theory Chunk_Merger
  imports Sentence_Scanner
begin

text \<open>
  The second loop of \<open>AspectExtractor.__call__\<close> (lines 207--215): for \<open>i\<close> from
  \<open>len(aspects) - 1\<close> down to 1, two neighbours whose slices touch with no
  whitespace in between are replaced by one aspect spanning both, and the right
  one is deleted. The range is computed once, but the deletion only ever removes
  the element at \<open>i\<close>, so every index the loop still visits is in range
  (\<open>merge_chunks_never_raises\<close> in theory \<open>Index_Errors\<close>).
  \<open>merge_pass\<close> is that loop as the source writes it, over indices and list
  updates; \<open>merge_spec\<close> is the same computation as a fold from the right
  (merge a chunk into the already merged rest). The two are equal
  (\<open>merge_chunks_refines\<close>), and from the fold it follows that merging twice
  merges nothing more: the join test of a merged aspect is the join test of its
  right part.
\<close>

definition joinable :: "doc \<Rightarrow> aspect \<Rightarrow> aspect \<Rightarrow> bool" where
  "joinable d a b \<longleftrightarrow> tok_ws (py_nth d (int (stop a) - 1)) = [] \<and> stop a = start b"

definition merge_pair :: "doc \<Rightarrow> aspect \<Rightarrow> aspect \<Rightarrow> aspect" where
  "merge_pair d a b = aspect_init d (start a) (stop b) (Some (context_start a)) (Some (context_stop b))"

text \<open>One iteration of the loop, at index \<open>i \<ge> 1\<close>.\<close>

definition merge_at :: "doc \<Rightarrow> nat \<Rightarrow> aspect list \<Rightarrow> aspect list" where
  "merge_at d i as =
     (if joinable d (as ! (i - 1)) (as ! i)
      then py_del (as[i - 1 := merge_pair d (as ! (i - 1)) (as ! i)]) i
      else as)"

primrec merge_pass :: "doc \<Rightarrow> nat \<Rightarrow> aspect list \<Rightarrow> aspect list" where
  "merge_pass d 0 as = as"
| "merge_pass d (Suc i) as = merge_pass d i (merge_at d (Suc i) as)"

definition merge_chunks :: "doc \<Rightarrow> aspect list \<Rightarrow> aspect list" where
  "merge_chunks d as = merge_pass d (length as - 1) as"

fun merge_spec :: "doc \<Rightarrow> aspect list \<Rightarrow> aspect list" where
  "merge_spec d [] = []"
| "merge_spec d (a # as) =
     (case merge_spec d as of
        [] \<Rightarrow> [a]
      | b # bs \<Rightarrow> if joinable d a b then merge_pair d a b # bs else a # b # bs)"

definition no_joinable :: "doc \<Rightarrow> aspect list \<Rightarrow> bool" where
  "no_joinable d as \<longleftrightarrow> (\<forall>i<length as - 1. \<not> joinable d (as ! i) (as ! Suc i))"

lemma merge_pair_fields [simp]:
  "start (merge_pair d a b) = start a" "stop (merge_pair d a b) = stop b"
  "context_start (merge_pair d a b) = context_start a"
  "context_stop (merge_pair d a b) = context_stop b"
  "aspect_doc (merge_pair d a b) = d"
  by (simp_all add: merge_pair_def)

text \<open>The join test reads only the left aspect's end and the right one's start.\<close>

lemma joinable_merge_pair [simp]: "joinable d (merge_pair d a b) c = joinable d b c"
  by (simp add: joinable_def)

lemma merge_spec_Nil_iff [simp]: "merge_spec d as = [] \<longleftrightarrow> as = []"
  by (cases as) (auto split: list.splits)

lemma merge_at_append:
  "length xs = i \<Longrightarrow>
   merge_at d (Suc i) (xs @ a # b # bs) =
     xs @ (if joinable d a b then merge_pair d a b # bs else a # b # bs)"
  by (simp add: merge_at_def py_del_def)

text \<open>
  The loop invariant: before index \<open>i\<close> is visited, the list is the untouched
  prefix of length \<open>i\<close> followed by the merged suffix.
\<close>

text \<open>One visit of index \<open>i + 1\<close> turns the invariant for \<open>i + 1\<close> into the
  invariant for \<open>i\<close>.\<close>

lemma merge_at_step:
  "Suc i < length as \<Longrightarrow>
   merge_at d (Suc i) (take (Suc i) as @ merge_spec d (drop (Suc i) as)) = take i as @ merge_spec d (drop i as)"
proof -
  assume i: "Suc i < length as"
  obtain b bs where bbs: "merge_spec d (drop (Suc i) as) = b # bs"
    using i by (cases "merge_spec d (drop (Suc i) as)") auto
  have drop: "drop i as = as ! i # drop (Suc i) as"
    using i by (simp add: drop_nth_Cons)
  have take: "take (Suc i) as = take i as @ [as ! i]"
    using i by (simp add: take_Suc_nth)
  show ?thesis
    using i by (simp add: take bbs drop merge_at_append)
qed

lemma merge_pass_spec:
  "i < length as \<Longrightarrow> merge_pass d i (take i as @ merge_spec d (drop i as)) = merge_spec d as"
proof (induction i)
  case 0
  then show ?case by simp
next
  case (Suc i)
  then show ?case by (simp add: merge_at_step)
qed

text \<open>No two neighbours of the merged list can be joined.\<close>

lemma no_joinable_Cons:
  "no_joinable d (a # as) \<longleftrightarrow> no_joinable d as \<and> (as \<noteq> [] \<longrightarrow> \<not> joinable d a (hd as))"
  by (cases as) (auto simp: no_joinable_def nth_Cons split: nat.splits)

lemma merge_spec_no_joinable: "no_joinable d (merge_spec d as)"
proof (induction as)
  case Nil
  then show ?case by (simp add: no_joinable_def)
next
  case (Cons a as)
  then show ?case by (auto simp: no_joinable_Cons split: list.splits)
qed

lemma merge_spec_id: "no_joinable d as \<Longrightarrow> merge_spec d as = as"
proof (induction as)
  case Nil
  then show ?case by simp
next
  case (Cons a as)
  then show ?case by (cases as) (auto simp: no_joinable_Cons)
qed

text \<open>Merging keeps the context starts of the aspects it starts from.\<close>

lemma merge_spec_context_start:
  "y \<in> set (merge_spec d as) \<Longrightarrow> \<exists>x\<in>set as. context_start x = context_start y"
proof (induction as arbitrary: y)
  case Nil
  then show ?case by simp
next
  case (Cons a as)
  then show ?case
    by (auto split: list.splits if_splits)
qed

lemma merge_pair_wf:
  assumes "aspect_wf d a" "aspect_wf d b" "fresh_aspect b" "joinable d a b"
  shows "aspect_wf d (merge_pair d a b) \<and> fresh_aspect (merge_pair d a b)"
  using assms
  by (auto simp: aspect_wf_def fresh_aspect_def joinable_def merge_pair_def py_simps
      max_expansion_left_def max_expansion_right_def)

lemma chunks_inv_Nil [simp]: "chunks_inv d []"
  by (simp add: chunks_inv_def contexts_disjoint_def)

lemma chunks_inv_Cons:
  "chunks_inv d (a # as) \<longleftrightarrow>
     aspect_wf d a \<and> fresh_aspect a \<and> (\<forall>x\<in>set as. context_stop a \<le> context_start x)
     \<and> chunks_inv d as"
  by (auto simp: chunks_inv_def contexts_disjoint_def)

lemma merge_spec_inv: "chunks_inv d as \<Longrightarrow> chunks_inv d (merge_spec d as)"
proof (induction as)
  case Nil
  then show ?case by simp
next
  case (Cons a as)
  have a: "aspect_wf d a" "fresh_aspect a" "\<forall>x\<in>set as. context_stop a \<le> context_start x"
    and rest: "chunks_inv d (merge_spec d as)"
    using Cons by (auto simp: chunks_inv_Cons)
  have before: "\<forall>y\<in>set (merge_spec d as). context_stop a \<le> context_start y"
    using a(3) merge_spec_context_start by metis
  show ?case
  proof (cases "merge_spec d as")
    case Nil
    then show ?thesis using a by (simp add: chunks_inv_Cons)
  next
    case (Cons b bs)
    have b: "aspect_wf d b" "fresh_aspect b" "\<forall>x\<in>set bs. context_stop b \<le> context_start x"
      "chunks_inv d bs"
      using rest Cons by (auto simp: chunks_inv_Cons)
    show ?thesis
      using Cons a b before merge_pair_wf [of d a b] by (auto simp: chunks_inv_Cons)
  qed
qed

text \<open>The whole loop, started on the unmerged list, computes the right fold.\<close>

lemma merge_chunks_eq_spec: "merge_chunks d as = merge_spec d as"
proof (cases as rule: rev_exhaust)
  case Nil
  then show ?thesis by (simp add: merge_chunks_def)
next
  case (snoc ys l)
  then have "take (length as - 1) as @ merge_spec d (drop (length as - 1) as) = as"
    by simp
  then show ?thesis
    using merge_pass_spec [of "length as - 1" as d] snoc by (simp add: merge_chunks_def)
qed

subsection \<open>Properties of the merger\<close>

text \<open>
  C3 (refinement): the source's index-based loop with in-place replacement and
  \<open>del\<close> computes the same list as the right fold \<open>merge_spec\<close>.
\<close>

theorem merge_chunks_refines: "merge_chunks d as = merge_spec d as"
  by (rule merge_chunks_eq_spec)

text \<open>
  C11 (functional): after the merger no two neighbouring aspects can be joined:
  whenever the left one ends on a token with no trailing whitespace it does not
  end where the right one starts.
\<close>

theorem merge_chunks_no_joinable: "no_joinable d (merge_chunks d as)"
  by (simp add: merge_chunks_eq_spec merge_spec_no_joinable)

text \<open>
  C8 (equivalence): the merger is idempotent, as spec section 8 requires: running
  it on its own output changes nothing.
\<close>

theorem merge_chunks_idempotent: "merge_chunks d (merge_chunks d as) = merge_chunks d as"
  by (simp add: merge_chunks_eq_spec merge_spec_id merge_spec_no_joinable)

text \<open>
  C12 (invariant): the merger keeps the chunk invariant the scanner establishes:
  well-formed fresh aspects whose context slices are disjoint and in order; a
  merged aspect spans from the left chunk's start to the right chunk's end, with
  the union of their contexts.
\<close>

theorem merge_chunks_inv: "chunks_inv d as \<Longrightarrow> chunks_inv d (merge_chunks d as)"
  by (simp add: merge_chunks_eq_spec merge_spec_inv)

text \<open>
  C24 (roundtrip): splitting a span where there is no whitespace and joining the
  parts back gives the text of the whole: the aspect the merger builds from two
  joinable aspects reads as the first aspect's text immediately followed by the
  second's ("sub" and "-plot" give "sub-plot").
\<close>

theorem merge_pair_text:
  assumes "aspect_wf d a" and "aspect_wf d b" and "joinable d a b"
  shows "aspect_text (merge_pair d a b) = aspect_text a @ aspect_text b"
proof -
  have a: "aspect_doc a = d" "start a < stop a" "stop a \<le> length d" and b: "aspect_doc b = d" "start b < stop b"
    using assms(1,2) by (auto simp: aspect_wf_def)
  have j0: "tok_ws (py_nth d (int (stop a) - 1)) = []" and j1: "stop a = start b"
    using assms(3) unfolding joinable_def by blast+
  have j: "tok_ws (d ! (stop a - 1)) = []" "stop a = start b"
    using j0 j1 a py_nth_pred [of "stop a" d] by simp_all
  have "doc_slice d (start a) (stop b) = doc_slice d (start a) (stop a) @ doc_slice d (stop a) (stop b)"
    using a b j by (simp add: doc_slice_append)
  moreover have "tok_ws (last (doc_slice d (start a) (stop a))) = []"
    using a j by (simp add: last_doc_slice)
  moreover have "doc_slice d (start a) (stop a) \<noteq> []"
    using a by (simp add: doc_slice_empty_iff)
  ultimately show ?thesis
    using a b j by (simp add: aspect_text_def span_text_append)
qed

end
