(* ===== verification/Expansion_Loop.thy ===== *)
theory Expansion_Loop
  imports Aspect
begin

text \<open>
  The \<open>while aspects[i] == aspects[j]\<close> loop of \<open>AspectExtractor.__call__\<close>
  (lines 230--236): while the two aspects compare equal (by context text), both are
  expanded; when neither can grow the loop gives up with a warning. It is modelled
  three ways:
  \<^item> \<open>expand_loop\<close>, a \<open>function\<close> whose termination measure is the expansion
    budget left to the two aspects (every round that does not stop uses up at
    least one unit);
  \<^item> \<open>expand_loop_fuel\<close>, the same loop with an explicit bound on its rounds;
    \<open>expand_loop_fuel_enough\<close> shows that the budget plus one rounds always
    suffice, so at most eleven for well-formed aspects;
  \<^item> \<open>loop_step\<close>, a small-step relation over the loop's states, one rule per
    way a round can end: both contexts widened and the loop goes on
    (\<open>widen\<close>), nothing could be widened (\<open>give_up\<close>, the \<open>break\<close> after the
    warning), or the contexts differ and the loop condition fails (\<open>differ\<close>).
    The function follows the steps to the stopped state they reach
    (\<open>expand_loop_steps\<close>); every run of the relation is finite and stops.
\<close>

function expand_loop :: "aspect \<Rightarrow> aspect \<Rightarrow> aspect \<times> aspect \<times> bool" where
  "expand_loop ai aj =
     (if aspect_eq ai (AspectOp aj) then
        (let r1 = expand ai; r2 = expand aj in
         if \<not> (snd r1 \<or> snd r2) then (fst r1, fst r2, True)
         else expand_loop (fst r1) (fst r2))
      else (ai, aj, False))"
  by pat_completeness auto
termination
proof (relation "measure (\<lambda>(ai, aj). budget ai + budget aj)")
  show "wf (measure (\<lambda>(ai, aj). budget ai + budget aj))" by simp
next
  fix ai aj r1 r2
  assume "r1 = expand ai" "r2 = expand aj" "\<not> \<not> (snd r1 \<or> snd r2)"
  then show "((fst r1, fst r2), ai, aj) \<in> measure (\<lambda>(ai, aj). budget ai + budget aj)"
    using expand_budget [of ai] expand_budget [of aj] by (auto split: if_splits)
qed

declare expand_loop.simps [simp del]

fun expand_loop_fuel :: "nat \<Rightarrow> aspect \<Rightarrow> aspect \<Rightarrow> (aspect \<times> aspect \<times> bool) option" where
  "expand_loop_fuel 0 ai aj = None"
| "expand_loop_fuel (Suc n) ai aj =
     (if aspect_eq ai (AspectOp aj) then
        (let r1 = expand ai; r2 = expand aj in
         if \<not> (snd r1 \<or> snd r2) then Some (fst r1, fst r2, True)
         else expand_loop_fuel n (fst r1) (fst r2))
      else Some (ai, aj, False))"


text \<open>The state of the loop: still running on the pair, or stopped with the pair
  and the warning flag.\<close>

datatype loop_state = Looping aspect aspect | Stopped aspect aspect bool

inductive loop_step :: "loop_state \<Rightarrow> loop_state \<Rightarrow> bool" where
  widen: "aspect_eq ai (AspectOp aj) \<Longrightarrow> snd (expand ai) \<or> snd (expand aj) \<Longrightarrow>
    loop_step (Looping ai aj) (Looping (fst (expand ai)) (fst (expand aj)))"
| give_up: "aspect_eq ai (AspectOp aj) \<Longrightarrow> \<not> snd (expand ai) \<Longrightarrow> \<not> snd (expand aj) \<Longrightarrow>
    loop_step (Looping ai aj) (Stopped (fst (expand ai)) (fst (expand aj)) True)"
| differ: "\<not> aspect_eq ai (AspectOp aj) \<Longrightarrow> loop_step (Looping ai aj) (Stopped ai aj False)"

code_pred loop_step .

text \<open>The measure that every step decreases: the budget left while running.\<close>

fun loop_measure :: "loop_state \<Rightarrow> nat" where
  "loop_measure (Looping ai aj) = Suc (budget ai + budget aj)"
| "loop_measure (Stopped ai aj w) = 0"

subsection \<open>The expansion loop\<close>

lemma expand_loop_unfold:
  "expand_loop ai aj =
     (if aspect_eq ai (AspectOp aj) then
        (if \<not> (snd (expand ai) \<or> snd (expand aj)) then (fst (expand ai), fst (expand aj), True)
         else expand_loop (fst (expand ai)) (fst (expand aj)))
      else (ai, aj, False))"
  by (simp add: expand_loop.simps [of ai aj] Let_def)

lemma expand_loop_frame:
  "expand_loop ai aj = (ai', aj', w) \<Longrightarrow>
   aspect_doc ai' = aspect_doc ai \<and> start ai' = start ai \<and> stop ai' = stop ai
   \<and> ordinal ai' = ordinal ai \<and> aspect_text ai' = aspect_text ai
   \<and> aspect_doc aj' = aspect_doc aj \<and> start aj' = start aj \<and> stop aj' = stop aj
   \<and> ordinal aj' = ordinal aj \<and> aspect_text aj' = aspect_text aj
   \<and> context_start ai' + expansion_left ai' = context_start ai + expansion_left ai
   \<and> context_stop ai' + expansion_right ai = context_stop ai + expansion_right ai'
   \<and> context_start aj' + expansion_left aj' = context_start aj + expansion_left aj
   \<and> context_stop aj' + expansion_right aj = context_stop aj + expansion_right aj'"
proof (induction ai aj rule: expand_loop.induct)
  case (1 ai aj)
  show ?case
  proof (cases "aspect_eq ai (AspectOp aj) \<and> (snd (expand ai) \<or> snd (expand aj))")
    case True
    then have rec: "expand_loop (fst (expand ai)) (fst (expand aj)) = (ai', aj', w)"
      using "1.prems" by (simp add: expand_loop_unfold [of ai aj])
    have "aspect_doc ai' = aspect_doc (fst (expand ai)) \<and> start ai' = start (fst (expand ai))
      \<and> stop ai' = stop (fst (expand ai)) \<and> ordinal ai' = ordinal (fst (expand ai))
      \<and> aspect_text ai' = aspect_text (fst (expand ai))
      \<and> aspect_doc aj' = aspect_doc (fst (expand aj)) \<and> start aj' = start (fst (expand aj))
      \<and> stop aj' = stop (fst (expand aj)) \<and> ordinal aj' = ordinal (fst (expand aj))
      \<and> aspect_text aj' = aspect_text (fst (expand aj))
      \<and> context_start ai' + expansion_left ai' = context_start (fst (expand ai)) + expansion_left (fst (expand ai))
      \<and> context_stop ai' + expansion_right (fst (expand ai)) = context_stop (fst (expand ai)) + expansion_right ai'
      \<and> context_start aj' + expansion_left aj' = context_start (fst (expand aj)) + expansion_left (fst (expand aj))
      \<and> context_stop aj' + expansion_right (fst (expand aj)) = context_stop (fst (expand aj)) + expansion_right aj'"
      using "1.IH" [OF _ refl refl] True rec by simp
    then show ?thesis using expand_anchor [of ai] expand_anchor [of aj] by simp
  next
    case False
    then have "ai' = ai \<and> aj' = aj"
      using "1.prems" by (auto simp: expand_loop_unfold [of ai aj] expand_fail split: if_splits)
    then show ?thesis by simp
  qed
qed

lemma expand_loop_wf:
  "expand_loop ai aj = (ai', aj', w) \<Longrightarrow> aspect_wf d ai \<Longrightarrow> aspect_wf d aj \<Longrightarrow>
   aspect_wf d ai' \<and> aspect_wf d aj'"
proof (induction ai aj rule: expand_loop.induct)
  case (1 ai aj)
  then show ?case
    by (subst (asm) expand_loop_unfold) (auto simp: expand_wf split: if_splits)
qed

lemma expand_loop_fuel_enough:
  "budget ai + budget aj < n \<Longrightarrow> expand_loop_fuel n ai aj = Some (expand_loop ai aj)"
proof (induction ai aj arbitrary: n rule: expand_loop.induct)
  case (1 ai aj)
  then obtain m where n: "n = Suc m" by (cases n) auto
  have "budget (fst (expand ai)) + budget (fst (expand aj)) < m"
    if "snd (expand ai) \<or> snd (expand aj)"
    using that "1.prems" n expand_budget [of ai] expand_budget [of aj] by (auto split: if_splits)
  then show ?case
    using "1.IH" n by (subst expand_loop_unfold) (auto simp: Let_def)
qed

lemma budget_wf: "aspect_wf d a \<Longrightarrow> budget a \<le> 5"
  by (auto simp: budget_def aspect_wf_def max_expansion_left_def max_expansion_right_def)

text \<open>When the loop stops, the two contexts differ, or neither aspect can grow and
  the warning flag is set.\<close>

lemma expand_loop_result:
  "expand_loop ai aj = (ai', aj', w) \<Longrightarrow>
   (\<not> w \<and> aspect_context ai' \<noteq> aspect_context aj')
   \<or> (w \<and> aspect_context ai' = aspect_context aj'
      \<and> \<not> snd (expand ai') \<and> \<not> snd (expand aj'))"
proof (induction ai aj rule: expand_loop.induct)
  case (1 ai aj)
  then show ?case
    by (subst (asm) expand_loop_unfold) (auto simp: aspect_eq_def expand_fail split: if_splits)
qed

subsection \<open>The small-step semantics of the loop\<close>

inductive_cases loop_step_LoopingE: "loop_step (Looping ai aj) s"
inductive_cases loop_step_StoppedE [elim!]: "loop_step (Stopped ai aj w) s"
inductive_simps loop_step_Looping: "loop_step (Looping ai aj) s"

text \<open>A running loop always has a next step: no state is stuck.\<close>

lemma loop_step_progress: "\<exists>t. loop_step (Looping ai aj) t"
  by (auto simp: loop_step_Looping)

lemma loop_step_measure: "loop_step s t \<Longrightarrow> loop_measure t < loop_measure s"
proof (induction rule: loop_step.induct)
  case (widen ai aj)
  then show ?case using expand_budget [of ai] expand_budget [of aj] by (auto split: if_splits)
qed simp_all

lemma loop_step_wf: "wf {(t, s). loop_step s t}"
  by (rule wf_subset [OF wf_measure [of loop_measure]]) (auto dest: loop_step_measure)

text \<open>The loop function follows the steps to the state where they stop.\<close>

lemma expand_loop_steps:
  "expand_loop ai aj = (ai', aj', w) \<Longrightarrow> loop_step\<^sup>*\<^sup>* (Looping ai aj) (Stopped ai' aj' w)"
proof (induction ai aj rule: expand_loop.induct)
  case (1 ai aj)
  show ?case
  proof (cases "aspect_eq ai (AspectOp aj)")
    case False
    then show ?thesis using "1.prems" by (auto simp: expand_loop_unfold [of ai aj] intro: differ)
  next
    case eq: True
    show ?thesis
    proof (cases "snd (expand ai) \<or> snd (expand aj)")
      case True
      then have "expand_loop (fst (expand ai)) (fst (expand aj)) = (ai', aj', w)"
        using eq "1.prems" by (simp add: expand_loop_unfold [of ai aj])
      then have "loop_step\<^sup>*\<^sup>* (Looping (fst (expand ai)) (fst (expand aj))) (Stopped ai' aj' w)"
        using "1.IH" [OF eq refl refl] True by simp
      then show ?thesis using eq True by (blast intro: converse_rtranclp_into_rtranclp widen)
    next
      case False
      then show ?thesis using eq "1.prems"
        by (auto simp: expand_loop_unfold [of ai aj] intro: give_up)
    qed
  qed
qed

subsection \<open>Properties of the loop\<close>

text \<open>
  C16 (termination): the \<open>while\<close> loop of the disambiguator ends: for two
  well-formed aspects eleven rounds always suffice, and the bounded loop returns
  what the loop returns.
\<close>

theorem expand_loop_terminates:
  assumes "aspect_wf d ai" and "aspect_wf d aj"
  shows "expand_loop_fuel 11 ai aj = Some (expand_loop ai aj)"
proof -
  have "budget ai + budget aj < 11"
    using budget_wf [OF assms(1)] budget_wf [OF assms(2)] by simp
  then show ?thesis by (rule expand_loop_fuel_enough)
qed

text \<open>
  C17 (functional): when the \<open>while\<close> loop stops, either the two contexts now
  differ and no warning is due, or they are still equal, neither aspect can be
  expanded any further, and the warning flag is set.
\<close>

theorem expand_loop_outcome:
  "case expand_loop ai aj of (ai', aj', w) \<Rightarrow>
     (\<not> w \<and> aspect_context ai' \<noteq> aspect_context aj')
     \<or> (w \<and> aspect_context ai' = aspect_context aj'
        \<and> \<not> snd (expand ai') \<and> \<not> snd (expand aj'))"
  using expand_loop_result by (auto split: prod.splits)

text \<open>
  C23 (liveness): the loop always stops: no sequence of steps is infinite (the
  converse step relation is well founded), and from any two aspects a stopped
  state is reached.
\<close>

theorem loop_runs_stop:
  "wf {(t, s). loop_step s t} \<and> (\<exists>ai' aj' w. loop_step\<^sup>*\<^sup>* (Looping ai aj) (Stopped ai' aj' w))"
proof
  show "wf {(t, s). loop_step s t}" by (rule loop_step_wf)
  obtain ai' aj' w where "expand_loop ai aj = (ai', aj', w)" by (cases "expand_loop ai aj") auto
  then show "\<exists>ai' aj' w. loop_step\<^sup>*\<^sup>* (Looping ai aj) (Stopped ai' aj' w)"
    by (blast dest: expand_loop_steps)
qed

end
