(* ===== verification/Disambiguator.thy ===== *)
theory Disambiguator
  imports Chunk_Merger Expansion_Loop
begin

text \<open>
  The last loop of \<open>AspectExtractor.__call__\<close> (lines 224--237): for every pair
  \<open>i < j\<close> of aspects with the same reduced text, \<open>aspects[j].ordinal\<close> becomes
  \<open>aspects[i].ordinal + 1\<close>, and while the two compare equal under
  \<open>Aspect.__eq__\<close> (context text) both are expanded; when neither can grow a
  warning is logged and the loop stops. The aspects are updated in place, so a
  later pair sees the contexts earlier pairs widened. Here the list is threaded
  through the two \<open>for\<close> loops together with the log, a list of
  \<open>(i, aspects[i].text, doc.text)\<close> for each warning.
  The \<open>while\<close> loop is \<open>expand_loop\<close> of theory \<open>Expansion_Loop\<close>. The
  two loops are also one fold over the pairs \<open>(i, j)\<close> in the order they visit
  them (\<open>pair_schedule\<close>, \<open>disambiguate_flat\<close>); a pair step changes only the
  aspects at \<open>i\<close> and \<open>j\<close>, and only when their texts agree, which gives the
  spec's property for a text that occurs exactly twice.
\<close>

type_synonym warning = "nat \<times> string \<times> string"

text \<open>The body of \<open>for j in range(i + 1, len(aspects))\<close>.\<close>

definition disambiguate_pair :: "nat \<Rightarrow> aspect list \<times> warning list \<Rightarrow> nat \<Rightarrow> aspect list \<times> warning list" where
  "disambiguate_pair i st j =
     (let (as, ws) = st in
      if aspect_text (as ! i) = aspect_text (as ! j) then
        (let as1 = as[j := (as ! j)\<lparr>ordinal := Suc (ordinal (as ! i))\<rparr>];
             (ai, aj, unresolved) = expand_loop (as1 ! i) (as1 ! j)
         in (as1[i := ai, j := aj],
             if unresolved then ws @ [(i, aspect_text ai, doc_text (aspect_doc ai))] else ws))
      else (as, ws))"

definition disambiguate_row :: "aspect list \<times> warning list \<Rightarrow> nat \<Rightarrow> aspect list \<times> warning list" where
  "disambiguate_row st i = foldl (disambiguate_pair i) st [Suc i..<length (fst st)]"

definition disambiguate :: "aspect list \<Rightarrow> aspect list \<times> warning list" where
  "disambiguate as = foldl disambiguate_row (as, []) [0..<length as - 1]"

text \<open>The pairs \<open>(i, j)\<close> in the order the two \<open>for\<close> loops visit them.\<close>

definition pair_schedule :: "nat \<Rightarrow> (nat \<times> nat) list" where
  "pair_schedule n = concat (map (\<lambda>i. map (Pair i) [Suc i..<n]) [0..<n - 1])"

text \<open>Two lists of aspects with the same documents and reduced slices, position by
  position, whose contexts differ only by the expansions counted in each.\<close>

definition spans_kept :: "aspect list \<Rightarrow> aspect list \<Rightarrow> bool" where
  "spans_kept as as' \<longleftrightarrow> length as' = length as
     \<and> (\<forall>k<length as. aspect_doc (as' ! k) = aspect_doc (as ! k) \<and> start (as' ! k) = start (as ! k)
          \<and> stop (as' ! k) = stop (as ! k)
          \<and> context_start (as' ! k) + expansion_left (as' ! k) = context_start (as ! k) + expansion_left (as ! k)
          \<and> context_stop (as' ! k) + expansion_right (as ! k) = context_stop (as ! k) + expansion_right (as' ! k))"

subsection \<open>The two \<open>for\<close> loops\<close>

text \<open>The reduced text depends only on the document and the reduced slice.\<close>

lemma aspect_text_cong:
  "aspect_doc a = aspect_doc b \<Longrightarrow> start a = start b \<Longrightarrow> stop a = stop b \<Longrightarrow>
   aspect_text a = aspect_text b"
  by (simp add: aspect_text_def)

lemma spans_kept_refl [simp]: "spans_kept as as"
  by (simp add: spans_kept_def)

lemma spans_kept_trans:
  assumes ab: "spans_kept as bs" and bc: "spans_kept bs cs"
  shows "spans_kept as cs"
proof -
  have l: "length bs = length as" "length cs = length as"
    using ab bc by (auto simp: spans_kept_def)
  have "aspect_doc (cs ! k) = aspect_doc (as ! k) \<and> start (cs ! k) = start (as ! k)
      \<and> stop (cs ! k) = stop (as ! k)
      \<and> context_start (cs ! k) + expansion_left (cs ! k) = context_start (as ! k) + expansion_left (as ! k)
      \<and> context_stop (cs ! k) + expansion_right (as ! k) = context_stop (as ! k) + expansion_right (cs ! k)"
    if k: "k < length as" for k
  proof -
    from ab k have a: "aspect_doc (bs ! k) = aspect_doc (as ! k) \<and> start (bs ! k) = start (as ! k)
      \<and> stop (bs ! k) = stop (as ! k)
      \<and> context_start (bs ! k) + expansion_left (bs ! k) = context_start (as ! k) + expansion_left (as ! k)
      \<and> context_stop (bs ! k) + expansion_right (as ! k) = context_stop (as ! k) + expansion_right (bs ! k)"
      by (simp add: spans_kept_def)
    from bc k l have b: "aspect_doc (cs ! k) = aspect_doc (bs ! k) \<and> start (cs ! k) = start (bs ! k)
      \<and> stop (cs ! k) = stop (bs ! k)
      \<and> context_start (cs ! k) + expansion_left (cs ! k) = context_start (bs ! k) + expansion_left (bs ! k)
      \<and> context_stop (cs ! k) + expansion_right (bs ! k) = context_stop (bs ! k) + expansion_right (cs ! k)"
      by (simp add: spans_kept_def)
    from a b show ?thesis by (elim conjE) simp
  qed
  then show ?thesis using l by (simp add: spans_kept_def)
qed

lemma spans_kept_text:
  "spans_kept as as' \<Longrightarrow> k < length as \<Longrightarrow> aspect_text (as' ! k) = aspect_text (as ! k)"
  by (auto simp: spans_kept_def intro: aspect_text_cong)

text \<open>What one pair step changes: the ordinal of \<open>j\<close> and, through the expansion
  loop, the contexts of \<open>i\<close> and \<open>j\<close>; nothing else.\<close>

lemma disambiguate_pair_step:
  assumes "i < j" "j < length as" "disambiguate_pair i (as, ws) j = (as', ws')"
  shows "spans_kept as as'
    \<and> (\<forall>k<length as. ordinal (as' ! k) = (if k = j \<and> aspect_text (as ! i) = aspect_text (as ! j)
                                        then Suc (ordinal (as ! i)) else ordinal (as ! k)))
    \<and> ((\<forall>a\<in>set as. aspect_wf d a) \<longrightarrow> (\<forall>a\<in>set as'. aspect_wf d a))
    \<and> (ws' = ws \<or> ws' = ws @ [(i, aspect_text (as ! i), doc_text (aspect_doc (as ! i)))])"
proof (cases "aspect_text (as ! i) = aspect_text (as ! j)")
  case False
  then show ?thesis using assms by (simp add: disambiguate_pair_def)
next
  case True
  let ?aj = "(as ! j)\<lparr>ordinal := Suc (ordinal (as ! i))\<rparr>"
  let ?as1 = "as[j := ?aj]"
  obtain ai aj w where loop: "expand_loop (as ! i) ?aj = (ai, aj, w)"
    by (cases "expand_loop (as ! i) ?aj") auto
  have i1: "?as1 ! i = as ! i" and j1: "?as1 ! j = ?aj" using assms(1,2) by auto
  have as': "as' = ?as1[i := ai, j := aj]"
    and ws': "ws' = (if w then ws @ [(i, aspect_text ai, doc_text (aspect_doc ai))] else ws)"
    using assms(3) True loop i1 j1 by (simp_all add: disambiguate_pair_def Let_def)
  have fr: "aspect_doc ai = aspect_doc (as ! i) \<and> start ai = start (as ! i) \<and> stop ai = stop (as ! i)
      \<and> ordinal ai = ordinal (as ! i) \<and> aspect_text ai = aspect_text (as ! i)
      \<and> context_start ai + expansion_left ai = context_start (as ! i) + expansion_left (as ! i)
      \<and> context_stop ai + expansion_right (as ! i) = context_stop (as ! i) + expansion_right ai
      \<and> aspect_doc aj = aspect_doc (as ! j) \<and> start aj = start (as ! j)
      \<and> stop aj = stop (as ! j) \<and> ordinal aj = Suc (ordinal (as ! i))
      \<and> context_start aj + expansion_left aj = context_start (as ! j) + expansion_left (as ! j)
      \<and> context_stop aj + expansion_right (as ! j) = context_stop (as ! j) + expansion_right aj"
    using expand_loop_frame [OF loop] by simp
  have wf: "aspect_wf d ai \<and> aspect_wf d aj" if "\<forall>a\<in>set as. aspect_wf d a"
    using expand_loop_wf [OF loop] that assms(1,2) by auto
  have "\<forall>a\<in>set as'. aspect_wf d a" if "\<forall>a\<in>set as. aspect_wf d a"
  proof
    fix a assume "a \<in> set as'"
    then obtain k where "k < length as" "a = as' ! k" by (auto simp: as' in_set_conv_nth)
    then show "aspect_wf d a" using wf that assms(1,2) by (auto simp: as' nth_list_update)
  qed
  moreover have "spans_kept as as'"
    using assms(1,2) fr by (auto simp: spans_kept_def as' nth_list_update)
  ultimately show ?thesis using assms(1,2) fr True ws' by (auto simp: as' nth_list_update)
qed

text \<open>The inner loop over \<open>j\<close>: the ordinal of every later aspect with the text of
  \<open>i\<close> becomes one more than that of \<open>i\<close>.\<close>

lemma disambiguate_row_fold:
  assumes "\<forall>j\<in>set js. i < j \<and> j < length as"
    and "foldl (disambiguate_pair i) (as, ws) js = (as', ws')"
  shows "spans_kept as as'
    \<and> (\<forall>k<length as. ordinal (as' ! k) =
         (if k \<in> set js \<and> aspect_text (as ! i) = aspect_text (as ! k)
          then Suc (ordinal (as ! i)) else ordinal (as ! k)))
    \<and> ((\<forall>a\<in>set as. aspect_wf d a) \<longrightarrow> (\<forall>a\<in>set as'. aspect_wf d a))
    \<and> (\<forall>w\<in>set ws'. w \<in> set ws \<or> w = (i, aspect_text (as ! i), doc_text (aspect_doc (as ! i))))"
  using assms
proof (induction js arbitrary: as' ws' rule: rev_induct)
  case Nil
  then show ?case by simp
next
  case (snoc x xs)
  obtain as1 ws1 where st1: "foldl (disambiguate_pair i) (as, ws) xs = (as1, ws1)"
    by (cases "foldl (disambiguate_pair i) (as, ws) xs") auto
  have IH: "spans_kept as as1
    \<and> (\<forall>k<length as. ordinal (as1 ! k) =
         (if k \<in> set xs \<and> aspect_text (as ! i) = aspect_text (as ! k)
          then Suc (ordinal (as ! i)) else ordinal (as ! k)))
    \<and> ((\<forall>a\<in>set as. aspect_wf d a) \<longrightarrow> (\<forall>a\<in>set as1. aspect_wf d a))
    \<and> (\<forall>w\<in>set ws1. w \<in> set ws \<or> w = (i, aspect_text (as ! i), doc_text (aspect_doc (as ! i))))"
    using snoc.IH [OF _ st1] snoc.prems(1) by simp
  have x: "i < x" "x < length as" using snoc.prems(1) by auto
  have len1: "length as1 = length as" using IH by (simp add: spans_kept_def)
  have step: "disambiguate_pair i (as1, ws1) x = (as', ws')"
    using snoc.prems(2) st1 by simp
  have x1: "x < length as1" using x(2) len1 by simp
  note pair = disambiguate_pair_step [OF x(1) x1 step, of d, unfolded len1]
  have same_text: "aspect_text (as1 ! k) = aspect_text (as ! k)" if "k < length as" for k
    using IH that by (simp add: spans_kept_text)
  have same_doc: "aspect_doc (as1 ! i) = aspect_doc (as ! i)"
    using IH x by (simp add: spans_kept_def)
  have oi: "ordinal (as1 ! i) = ordinal (as ! i)"
    using IH x snoc.prems(1) by auto
  show ?case
    using IH pair same_text same_doc oi x len1 by (auto intro: spans_kept_trans)
qed

text \<open>
  The outer loop over \<open>i\<close>: after the rows \<open>0, ..., k - 1\<close>, starting from
  ordinals 0, the ordinal of every aspect \<open>j\<close> counts the aspects before
  \<open>min j k\<close> with the same reduced text.
\<close>

lemma disambiguate_rows:
  assumes "k \<le> length as" and "\<forall>a\<in>set as. ordinal a = 0"
    and "foldl disambiguate_row (as, ws) [0..<k] = (as', ws')"
  shows "spans_kept as as'
    \<and> (\<forall>j<length as. ordinal (as' ! j) =
         length (filter (\<lambda>i. aspect_text (as ! i) = aspect_text (as ! j)) [0..<min j k]))
    \<and> ((\<forall>a\<in>set as. aspect_wf d a) \<longrightarrow> (\<forall>a\<in>set as'. aspect_wf d a))
    \<and> (\<forall>w\<in>set ws'. w \<in> set ws
         \<or> (\<exists>i<length as. w = (i, aspect_text (as ! i), doc_text (aspect_doc (as ! i)))))"
  using assms(1,3)
proof (induction k arbitrary: as' ws')
  case 0
  then show ?case using assms(2) by (auto simp: nth_mem)
next
  case (Suc k)
  obtain as1 ws1 where st1: "foldl disambiguate_row (as, ws) [0..<k] = (as1, ws1)"
    by (cases "foldl disambiguate_row (as, ws) [0..<k]") auto
  have IH: "spans_kept as as1
    \<and> (\<forall>j<length as. ordinal (as1 ! j) =
         length (filter (\<lambda>i. aspect_text (as ! i) = aspect_text (as ! j)) [0..<min j k]))
    \<and> ((\<forall>a\<in>set as. aspect_wf d a) \<longrightarrow> (\<forall>a\<in>set as1. aspect_wf d a))
    \<and> (\<forall>w\<in>set ws1. w \<in> set ws
         \<or> (\<exists>i<length as. w = (i, aspect_text (as ! i), doc_text (aspect_doc (as ! i)))))"
    using Suc.IH [OF _ st1] Suc.prems(1) by simp
  have len1: "length as1 = length as" using IH by (simp add: spans_kept_def)
  have k: "k < length as" using Suc.prems(1) by simp
  have t1: "aspect_text (as1 ! m) = aspect_text (as ! m)" if "m < length as" for m
    using IH that by (simp add: spans_kept_text)
  have "disambiguate_row (as1, ws1) k = (as', ws')"
    using Suc.prems(2) st1 by simp
  then have rowf: "foldl (disambiguate_pair k) (as1, ws1) [Suc k..<length as] = (as', ws')"
    using len1 by (simp add: disambiguate_row_def)
  have row: "spans_kept as1 as'
    \<and> (\<forall>m<length as1. ordinal (as' ! m) =
         (if m \<in> set [Suc k..<length as] \<and> aspect_text (as1 ! k) = aspect_text (as1 ! m)
          then Suc (ordinal (as1 ! k)) else ordinal (as1 ! m)))
    \<and> ((\<forall>a\<in>set as1. aspect_wf d a) \<longrightarrow> (\<forall>a\<in>set as'. aspect_wf d a))
    \<and> (\<forall>w\<in>set ws'. w \<in> set ws1 \<or> w = (k, aspect_text (as1 ! k), doc_text (aspect_doc (as1 ! k))))"
    by (rule disambiguate_row_fold [OF _ rowf]) (simp add: len1)
  have ok: "ordinal (as1 ! k) = length (filter (\<lambda>i. aspect_text (as ! i) = aspect_text (as ! k)) [0..<k])"
    using IH k by simp
  have ord: "ordinal (as' ! j) =
      length (filter (\<lambda>i. aspect_text (as ! i) = aspect_text (as ! j)) [0..<min j (Suc k)])"
    if j: "j < length as" for j
  proof (cases "k < j \<and> aspect_text (as ! k) = aspect_text (as ! j)")
    case True
    then have "ordinal (as' ! j) = Suc (ordinal (as1 ! k))"
      using row j k len1 t1 by auto
    moreover have "min j (Suc k) = Suc k" using True by simp
    ultimately show ?thesis using True ok by simp
  next
    case False
    then have o1: "ordinal (as' ! j) = ordinal (as1 ! j)"
      using row j k len1 t1 by auto
    let ?c = "\<lambda>m. length (filter (\<lambda>i. aspect_text (as ! i) = aspect_text (as ! j)) [0..<m])"
    have "ordinal (as1 ! j) = ?c (min j k)" using IH j by simp
    moreover have "?c (min j k) = ?c (min j (Suc k))"
    proof (cases "k < j")
      case True
      then have "aspect_text (as ! k) \<noteq> aspect_text (as ! j)" using False by simp
      moreover have "min j k = k" "min j (Suc k) = Suc k" using True by auto
      ultimately show ?thesis by simp
    next
      case False
      then show ?thesis by (simp add: min_def)
    qed
    ultimately show ?thesis using o1 by simp
  qed
  have dk: "aspect_doc (as1 ! k) = aspect_doc (as ! k)" using IH k by (simp add: spans_kept_def)
  have log: "\<forall>w\<in>set ws'. w \<in> set ws
      \<or> (\<exists>i<length as. w = (i, aspect_text (as ! i), doc_text (aspect_doc (as ! i))))"
    using IH row t1 [OF k] dk k by fastforce
  show ?case
    using IH row ord log by (auto intro: spans_kept_trans)
qed

subsection \<open>The loops as one sequence of pair steps\<close>

lemma disambiguate_pair_length [simp]: "length (fst (disambiguate_pair i st j)) = length (fst st)"
  by (cases st) (simp add: disambiguate_pair_def Let_def split: prod.splits)

lemma disambiguate_pairs_length:
  "length (fst (foldl (\<lambda>st (i, j). disambiguate_pair i st j) st ps)) = length (fst st)"
  by (induction ps arbitrary: st) auto

lemma disambiguate_rows_flat:
  "length (fst st) = n \<Longrightarrow>
   foldl disambiguate_row st [0..<m] =
     foldl (\<lambda>st (i, j). disambiguate_pair i st j) st (concat (map (\<lambda>i. map (Pair i) [Suc i..<n]) [0..<m]))"
proof (induction m)
  case 0
  then show ?case by simp
next
  case (Suc m)
  let ?f = "\<lambda>st (i, j). disambiguate_pair i st j"
  let ?st = "foldl ?f st (concat (map (\<lambda>i. map (Pair i) [Suc i..<n]) [0..<m]))"
  have "length (fst ?st) = n" using Suc.prems by (simp add: disambiguate_pairs_length)
  then have "disambiguate_row ?st m = foldl ?f ?st (map (Pair m) [Suc m..<n])"
    by (simp add: disambiguate_row_def foldl_map)
  then show ?case using Suc by simp
qed

lemma disambiguate_flat:
  "disambiguate as = foldl (\<lambda>st (i, j). disambiguate_pair i st j) (as, []) (pair_schedule (length as))"
  by (simp add: disambiguate_def pair_schedule_def disambiguate_rows_flat)

lemma pair_schedule_split:
  assumes "p < q" "q < n"
  obtains pre post where "pair_schedule n = pre @ (p, q) # post"
    and "\<forall>(i, j)\<in>set pre \<union> set post. i < j \<and> j < n \<and> (i, j) \<noteq> (p, q)"
proof -
  let ?r = "\<lambda>i. map (Pair i) [Suc i..<n]"
  have o: "[0..<n - 1] = [0..<p] @ p # [Suc p..<n - 1]"
    using assms upt_add_eq_append [of 0 p "n - 1 - p"] by (simp add: upt_conv_Cons)
  have r: "[Suc p..<n] = [Suc p..<q] @ q # [Suc q..<n]"
    using assms upt_add_eq_append [of "Suc p" q "n - q"] by (simp add: upt_conv_Cons)
  let ?pre = "concat (map ?r [0..<p]) @ map (Pair p) [Suc p..<q]"
  let ?post = "map (Pair p) [Suc q..<n] @ concat (map ?r [Suc p..<n - 1])"
  have "pair_schedule n = ?pre @ (p, q) # ?post"
    unfolding pair_schedule_def o by (simp add: r)
  moreover have "\<forall>(i, j)\<in>set ?pre \<union> set ?post. i < j \<and> j < n \<and> (i, j) \<noteq> (p, q)"
    using assms by auto
  ultimately show ?thesis by (rule that)
qed

lemma disambiguate_pair_other_text:
  "aspect_text (as ! i) \<noteq> aspect_text (as ! j) \<Longrightarrow> disambiguate_pair i (as, ws) j = (as, ws)"
  by (simp add: disambiguate_pair_def)

lemma disambiguate_pair_frame:
  "disambiguate_pair i (as, ws) j = (as', ws') \<Longrightarrow> k \<noteq> i \<Longrightarrow> k \<noteq> j \<Longrightarrow> as' ! k = as ! k"
  by (auto simp: disambiguate_pair_def Let_def split: prod.splits if_splits)

text \<open>The pair step on two aspects with the same text: their new values are the
  result of the \<open>while\<close> loop, and the warning is logged when its flag is set.\<close>

lemma disambiguate_pair_same_text:
  assumes "i < j" "j < length as" "aspect_text (as ! i) = aspect_text (as ! j)"
    and "disambiguate_pair i (as, ws) j = (as', ws')"
  shows "\<exists>w. expand_loop (as ! i) ((as ! j)\<lparr>ordinal := Suc (ordinal (as ! i))\<rparr>) = (as' ! i, as' ! j, w)
    \<and> ws' = (if w then ws @ [(i, aspect_text (as' ! i), doc_text (aspect_doc (as' ! i)))] else ws)"
proof -
  obtain ai aj w where loop: "expand_loop (as ! i) ((as ! j)\<lparr>ordinal := Suc (ordinal (as ! i))\<rparr>) = (ai, aj, w)"
    by (cases "expand_loop (as ! i) ((as ! j)\<lparr>ordinal := Suc (ordinal (as ! i))\<rparr>)") auto
  have "as' = (as[j := (as ! j)\<lparr>ordinal := Suc (ordinal (as ! i))\<rparr>])[i := ai, j := aj]"
    and "ws' = (if w then ws @ [(i, aspect_text ai, doc_text (aspect_doc ai))] else ws)"
    using assms loop by (simp_all add: disambiguate_pair_def Let_def)
  then show ?thesis using assms(1,2) loop by auto
qed

text \<open>A run of pair steps none of which pairs \<open>p\<close> or \<open>q\<close> with an aspect of the
  same text leaves both untouched and only appends to the log.\<close>

lemma disambiguate_pairs_frame:
  assumes "\<forall>(i, j)\<in>set ps. i < j \<and> j < length as
             \<and> (i = p \<or> i = q \<or> j = p \<or> j = q \<longrightarrow> aspect_text (as ! i) \<noteq> aspect_text (as ! j))"
    and "foldl (\<lambda>st (i, j). disambiguate_pair i st j) (as, ws) ps = (as', ws')"
  shows "spans_kept as as' \<and> as' ! p = as ! p \<and> as' ! q = as ! q \<and> (\<exists>ws2. ws' = ws @ ws2)"
  using assms
proof (induction ps arbitrary: as ws)
  case Nil
  then show ?case by simp
next
  case (Cons x ps)
  obtain i j where x: "x = (i, j)" by (cases x)
  obtain as1 ws1 where st1: "disambiguate_pair i (as, ws) j = (as1, ws1)"
    by (cases "disambiguate_pair i (as, ws) j") auto
  have ij: "i < j" "j < length as" using Cons.prems(1) x by auto
  note step = disambiguate_pair_step [OF ij st1, of "aspect_doc (as ! 0)"]
  have kept: "spans_kept as as1" using step by simp
  have len: "length as1 = length as" using kept by (simp add: spans_kept_def)
  have hx: "i = p \<or> i = q \<or> j = p \<or> j = q \<longrightarrow> aspect_text (as ! i) \<noteq> aspect_text (as ! j)"
    using Cons.prems(1) x by simp
  have pq: "as1 ! p = as ! p \<and> as1 ! q = as ! q"
  proof (cases "aspect_text (as ! i) = aspect_text (as ! j)")
    case True
    then have "p \<noteq> i" "p \<noteq> j" "q \<noteq> i" "q \<noteq> j" using hx by auto
    then show ?thesis using disambiguate_pair_frame [OF st1] by simp
  next
    case False
    then show ?thesis using st1 disambiguate_pair_other_text [OF False, of ws] by simp
  qed
  have ws1: "\<exists>ws2. ws1 = ws @ ws2" using step by auto
  have tx: "aspect_text (as1 ! k) = aspect_text (as ! k)" if "k < length as" for k
    using kept that by (rule spans_kept_text)
  have "\<forall>(i, j)\<in>set ps. i < j \<and> j < length as1
          \<and> (i = p \<or> i = q \<or> j = p \<or> j = q \<longrightarrow> aspect_text (as1 ! i) \<noteq> aspect_text (as1 ! j))"
  proof (intro ballI, clarify)
    fix i' j' assume "(i', j') \<in> set ps"
    then have "i' < j' \<and> j' < length as
        \<and> (i' = p \<or> i' = q \<or> j' = p \<or> j' = q \<longrightarrow> aspect_text (as ! i') \<noteq> aspect_text (as ! j'))"
      using Cons.prems(1) by auto
    then show "i' < j' \<and> j' < length as1
        \<and> (i' = p \<or> i' = q \<or> j' = p \<or> j' = q \<longrightarrow> aspect_text (as1 ! i') \<noteq> aspect_text (as1 ! j'))"
      using tx len by simp
  qed
  moreover have "foldl (\<lambda>st (i, j). disambiguate_pair i st j) (as1, ws1) ps = (as', ws')"
    using Cons.prems(2) x st1 by simp
  ultimately have "spans_kept as1 as' \<and> as' ! p = as1 ! p \<and> as' ! q = as1 ! q \<and> (\<exists>ws2. ws' = ws1 @ ws2)"
    by (rule Cons.IH)
  then show ?case using kept pq ws1 by (auto intro: spans_kept_trans)
qed

subsection \<open>Properties of the disambiguator\<close>

text \<open>
  C13 (functional): starting from the fresh aspects the scanner and the merger
  produce (ordinal 0), the disambiguator gives every aspect as ordinal the number
  of aspects before it with the same reduced text: 0 for a first mention, 1 for a
  second, and so on.
\<close>

theorem disambiguate_ordinal:
  assumes "\<forall>a\<in>set as. ordinal a = 0" and "j < length as"
  shows "ordinal (fst (disambiguate as) ! j) =
    length (filter (\<lambda>i. aspect_text (as ! i) = aspect_text (as ! j)) [0..<j])"
proof -
  obtain as' ws where r: "disambiguate as = (as', ws)" by (cases "disambiguate as") auto
  have "foldl disambiguate_row (as, []) [0..<length as - 1] = (as', ws)"
    using r by (simp add: disambiguate_def)
  from disambiguate_rows [OF _ assms(1) this] assms(2)
  have "ordinal (as' ! j) =
      length (filter (\<lambda>i. aspect_text (as ! i) = aspect_text (as ! j)) [0..<min j (length as - 1)])"
    by simp
  moreover have "min j (length as - 1) = j" using assms(2) by simp
  ultimately show ?thesis using r by simp
qed

text \<open>
  C14 (invariant): the disambiguator changes neither the number of aspects nor
  their documents or reduced slices, and keeps every aspect well formed (its
  expansions stay within the caps and the sentence).
\<close>

theorem disambiguate_keeps_spans:
  assumes "\<forall>a\<in>set as. ordinal a = 0"
  shows "spans_kept as (fst (disambiguate as))
    \<and> ((\<forall>a\<in>set as. aspect_wf d a) \<longrightarrow> (\<forall>a\<in>set (fst (disambiguate as)). aspect_wf d a))"
proof -
  obtain as' ws where r: "disambiguate as = (as', ws)" by (cases "disambiguate as") auto
  have "foldl disambiguate_row (as, []) [0..<length as - 1] = (as', ws)"
    using r by (simp add: disambiguate_def)
  from disambiguate_rows [OF _ assms this, of d] show ?thesis using r by simp
qed


text \<open>
  C15 (safety): spec section 8 for a reduced text that occurs exactly twice, at
  \<open>p < q\<close>: after disambiguation the two aspects have different contexts, or
  the warning for \<open>p\<close> (its index, its text and the sentence) is in the log. No
  other pair of the two loops touches either aspect, before or after theirs.
  With three or more mentions this fails: a later pair can widen an aspect after
  an earlier pair was told apart.
\<close>

theorem disambiguate_two_mentions:
  assumes "p < q" "q < length as" "aspect_text (as ! p) = aspect_text (as ! q)"
    and "\<forall>k<length as. k \<noteq> p \<longrightarrow> k \<noteq> q \<longrightarrow> aspect_text (as ! k) \<noteq> aspect_text (as ! p)"
  shows "aspect_context (fst (disambiguate as) ! p) \<noteq> aspect_context (fst (disambiguate as) ! q)
    \<or> (p, aspect_text (as ! p), doc_text (aspect_doc (as ! p))) \<in> set (snd (disambiguate as))"
proof -
  let ?f = "\<lambda>st (i, j). disambiguate_pair i st j"
  obtain pre post where sched: "pair_schedule (length as) = pre @ (p, q) # post"
    and other: "\<forall>(i, j)\<in>set pre \<union> set post. i < j \<and> j < length as \<and> (i, j) \<noteq> (p, q)"
    using pair_schedule_split [OF assms(1,2)] by blast
  have apart: "i < j \<and> j < length as
      \<and> (i = p \<or> i = q \<or> j = p \<or> j = q \<longrightarrow> aspect_text (bs ! i) \<noteq> aspect_text (bs ! j))"
    if ij: "(i, j) \<in> set pre \<union> set post" and bs: "spans_kept as bs" for i j bs
  proof -
    have o: "i < j" "j < length as" "(i, j) \<noteq> (p, q)" using other ij by auto
    have t: "aspect_text (bs ! k) = aspect_text (as ! k)" if "k < length as" for k
      using bs that by (rule spans_kept_text)
    have "aspect_text (as ! i) \<noteq> aspect_text (as ! j)" if "i = p \<or> i = q \<or> j = p \<or> j = q"
    proof -
      from that o assms(1) consider "i = p" "j \<noteq> p" "j \<noteq> q" | "i = q" "j \<noteq> p" "j \<noteq> q"
        | "j = p" "i \<noteq> p" "i \<noteq> q" | "j = q" "i \<noteq> p" "i \<noteq> q" by force
      then show ?thesis using assms(2,3,4) o by cases auto
    qed
    then show ?thesis using o t by simp
  qed
  have hyp: "\<forall>(i, j)\<in>set xs. i < j \<and> j < length bs
      \<and> (i = p \<or> i = q \<or> j = p \<or> j = q \<longrightarrow> aspect_text (bs ! i) \<noteq> aspect_text (bs ! j))"
    if "set xs \<subseteq> set pre \<union> set post" "spans_kept as bs" for xs bs
  proof (intro ballI, clarify)
    fix i j assume "(i, j) \<in> set xs"
    then have "(i, j) \<in> set pre \<union> set post" using that(1) by blast
    moreover have "length bs = length as" using that(2) by (simp add: spans_kept_def)
    ultimately show "i < j \<and> j < length bs
      \<and> (i = p \<or> i = q \<or> j = p \<or> j = q \<longrightarrow> aspect_text (bs ! i) \<noteq> aspect_text (bs ! j))"
      using apart [OF _ that(2)] by simp
  qed
  obtain as1 ws1 where st1: "foldl ?f (as, []) pre = (as1, ws1)" by (cases "foldl ?f (as, []) pre") auto
  have f1: "spans_kept as as1 \<and> as1 ! p = as ! p \<and> as1 ! q = as ! q \<and> (\<exists>ws2. ws1 = [] @ ws2)"
    by (rule disambiguate_pairs_frame [OF hyp st1]) simp_all
  obtain as2 ws2 where st2: "disambiguate_pair p (as1, ws1) q = (as2, ws2)"
    by (cases "disambiguate_pair p (as1, ws1) q") auto
  have len1: "length as1 = length as" using f1 by (simp add: spans_kept_def)
  have q1: "q < length as1" using len1 assms(2) by simp
  have t1: "aspect_text (as1 ! p) = aspect_text (as1 ! q)" using f1 assms(3) by simp
  obtain w where loop: "expand_loop (as ! p) ((as ! q)\<lparr>ordinal := Suc (ordinal (as ! p))\<rparr>) = (as2 ! p, as2 ! q, w)"
    and ws2: "ws2 = (if w then ws1 @ [(p, aspect_text (as2 ! p), doc_text (aspect_doc (as2 ! p)))] else ws1)"
    using disambiguate_pair_same_text [OF assms(1) q1 t1 st2] f1 by auto
  have "spans_kept as1 as2"
    using disambiguate_pair_step [OF assms(1) q1 st2, of "aspect_doc (as ! 0)"] by simp
  then have kept2: "spans_kept as as2" using f1 by (blast intro: spans_kept_trans)
  obtain as3 ws3 where st3: "foldl ?f (as2, ws2) post = (as3, ws3)" by (cases "foldl ?f (as2, ws2) post") auto
  have f3: "spans_kept as2 as3 \<and> as3 ! p = as2 ! p \<and> as3 ! q = as2 ! q \<and> (\<exists>ws4. ws3 = ws2 @ ws4)"
    by (rule disambiguate_pairs_frame [OF hyp st3]) (simp_all add: kept2)
  have r: "disambiguate as = (as3, ws3)"
    using st1 st2 st3 by (simp add: disambiguate_flat sched)
  have fr: "aspect_text (as2 ! p) = aspect_text (as ! p) \<and> aspect_doc (as2 ! p) = aspect_doc (as ! p)"
    using expand_loop_frame [OF loop] by simp
  show ?thesis
    using expand_loop_result [OF loop] ws2 f3 fr r by auto
qed

end
