(* ===== verification/Pipeline.thy ===== *)
theory Pipeline
  imports Disambiguator
begin

text \<open>
  Class \<open>AspectExtractor\<close>: its constructor (lines 124--139) and \<open>__call__\<close>
  (lines 180--241). The constructor takes either the name of a spaCy model, which
  it loads with \<open>spacy.load\<close> (after \<open>spacy.prefer_gpu()\<close> when the name ends in
  \<open>trf\<close>), or an already loaded pipeline, and keeps the pipes to disable. spaCy
  itself is a library the code only calls: the loader \<open>load\<close> is a parameter, a
  pipeline is the function \<open>nlp.pipe(texts, disable=...)\<close> from texts and the
  (optional) list of disabled pipes to annotated documents, and the calls the
  constructor makes into spaCy are returned as a list of \<open>spacy_call\<close>s.
  \<open>__call__\<close> runs the pipeline once on all texts; every document is scanned,
  its chunks merged, and then either the placeholder \<open>'overall'\<close> stands in
  for an empty result (lines 218--220) or the aspects are disambiguated (lines
  222--237). Documents are processed one after the other with no state shared
  between them; the warnings the source logs are collected in \<open>extract_log\<close>.
\<close>

type_synonym pipeline = "string list \<Rightarrow> string list option \<Rightarrow> doc list"

text \<open>The argument \<open>spacy_model: Union[str, object]\<close>.\<close>

datatype spacy_model = ModelName string | ModelObject pipeline

datatype spacy_call = PreferGpu | Load string

record extractor =
  nlp :: pipeline
  disabled_pipes :: "string list option"

definition extractor_init ::
  "(string \<Rightarrow> pipeline) \<Rightarrow> spacy_model \<Rightarrow> string list option \<Rightarrow> spacy_call list \<times> extractor" where
  "extractor_init load spacy_model spacy_disable_pipes =
     (case spacy_model of
        ModelName name \<Rightarrow>
          ((if suffix ''trf'' name then [PreferGpu] else []) @ [Load name],
           \<lparr>nlp = load name, disabled_pipes = spacy_disable_pipes\<rparr>)
      | ModelObject m \<Rightarrow> ([], \<lparr>nlp = m, disabled_pipes = spacy_disable_pipes\<rparr>))"

text \<open>The default argument \<open>spacy_disable_pipes = []\<close>.\<close>

definition extractor_init_default :: "(string \<Rightarrow> pipeline) \<Rightarrow> spacy_model \<Rightarrow> spacy_call list \<times> extractor" where
  "extractor_init_default load spacy_model = extractor_init load spacy_model (Some [])"

definition substitute_aspects :: "doc \<Rightarrow> aspect list" where
  "substitute_aspects d =
     map (\<lambda>i. aspect_init d i (Suc i) None None)
       (filter (\<lambda>i. tok_lower (d ! i) = noun_substitute) [0..<length d])"

definition process_doc :: "doc \<Rightarrow> aspect list \<times> warning list" where
  "process_doc d =
     (let aspects = merge_chunks d (scan_aspects d) in
      if length aspects = 0 then (substitute_aspects d, []) else disambiguate aspects)"

definition extract_aspects :: "extractor \<Rightarrow> string list \<Rightarrow> doc list \<times> aspect list list" where
  "extract_aspects self texts =
     (let docs = nlp self texts (disabled_pipes self) in (docs, map (\<lambda>d. fst (process_doc d)) docs))"

definition extract_log :: "extractor \<Rightarrow> string list \<Rightarrow> warning list" where
  "extract_log self texts = concat (map (\<lambda>d. snd (process_doc d)) (nlp self texts (disabled_pipes self)))"

definition spans_ordered :: "aspect list \<Rightarrow> bool" where
  "spans_ordered as \<longleftrightarrow> sorted_wrt (\<lambda>a b. stop a \<le> start b) as"

lemma merge_chunks_Nil_iff [simp]: "merge_chunks d as = [] \<longleftrightarrow> as = []"
  by (simp add: merge_chunks_eq_spec)

lemma merged_chunks_inv: "chunks_inv d (merge_chunks d (scan_aspects d))"
  by (simp add: merge_chunks_eq_spec merge_spec_inv scan_chunks_inv)

lemma process_doc_merged:
  "scan_aspects d \<noteq> [] \<Longrightarrow> process_doc d = disambiguate (merge_chunks d (scan_aspects d))"
  by (simp add: process_doc_def Let_def)

lemma process_doc_empty:
  "scan_aspects d = [] \<Longrightarrow> process_doc d = (substitute_aspects d, [])"
  by (simp add: process_doc_def Let_def)

text \<open>The merged list before disambiguation: fresh well-formed aspects.\<close>

lemma merged_fresh:
  "\<forall>a\<in>set (merge_chunks d (scan_aspects d)). aspect_wf d a \<and> ordinal a = 0"
  using merged_chunks_inv [of d] by (auto simp: chunks_inv_def fresh_aspect_def)

lemma disambiguate_merged:
  "spans_kept (merge_chunks d (scan_aspects d)) (fst (disambiguate (merge_chunks d (scan_aspects d))))
   \<and> (\<forall>a\<in>set (fst (disambiguate (merge_chunks d (scan_aspects d)))). aspect_wf d a)"
proof -
  let ?m = "merge_chunks d (scan_aspects d)"
  obtain as' ws where r: "disambiguate ?m = (as', ws)" by (cases "disambiguate ?m") auto
  have "foldl disambiguate_row (?m, []) [0..<length ?m - 1] = (as', ws)"
    using r by (simp add: disambiguate_def)
  from disambiguate_rows [OF _ _ this, of d] merged_fresh [of d] show ?thesis
    using r by auto
qed

text \<open>Disjoint contexts give disjoint, ordered reduced slices.\<close>

lemma contexts_disjoint_spans_ordered:
  assumes wf: "\<forall>a\<in>set as. aspect_wf d a" and dj: "contexts_disjoint as"
  shows "spans_ordered as"
  unfolding spans_ordered_def
proof (rule sorted_wrt_mono_rel [of _ "\<lambda>a b. context_stop a \<le> context_start b"])
  fix x y
  assume "x \<in> set as" "y \<in> set as" "context_stop x \<le> context_start y"
  moreover from \<open>x \<in> set as\<close> wf have "stop x \<le> context_stop x" by (simp add: aspect_wf_def)
  moreover from \<open>y \<in> set as\<close> wf have "context_start y \<le> start y" by (simp add: aspect_wf_def)
  ultimately show "stop x \<le> start y" by linarith
next
  show "sorted_wrt (\<lambda>a b. context_stop a \<le> context_start b) as"
    using dj by (simp add: contexts_disjoint_def)
qed

lemma spans_kept_ordered: "spans_kept as as' \<Longrightarrow> spans_ordered as \<Longrightarrow> spans_ordered as'"
  by (simp add: spans_ordered_def spans_kept_def sorted_wrt_iff_nth_less)

lemma substitute_aspects_ordered: "spans_ordered (substitute_aspects d)"
  by (simp add: spans_ordered_def substitute_aspects_def sorted_wrt_map
      sorted_wrt_filter [OF _] sorted_wrt_mono_rel [OF _ sorted_wrt_upt])

lemma substitute_aspects_wf: "\<forall>a\<in>set (substitute_aspects d). aspect_wf d a"
  by (auto simp: substitute_aspects_def aspect_wf_def max_expansion_left_def max_expansion_right_def)

text \<open>The log of the disambiguation of the merged chunks names an aspect of its result.\<close>

lemma process_doc_log_entries:
  assumes "scan_aspects d \<noteq> []"
  shows "\<forall>w\<in>set (snd (process_doc d)).
    \<exists>i<length (fst (process_doc d)). w = (i, aspect_text (fst (process_doc d) ! i), doc_text d)"
proof
  fix w assume w: "w \<in> set (snd (process_doc d))"
  let ?m = "merge_chunks d (scan_aspects d)"
  obtain r ws where r: "disambiguate ?m = (r, ws)" by (cases "disambiguate ?m") auto
  have pd: "process_doc d = (r, ws)" using assms r by (simp add: process_doc_merged)
  have "foldl disambiguate_row (?m, []) [0..<length ?m - 1] = (r, ws)"
    using r by (simp add: disambiguate_def)
  note rows = disambiguate_rows [OF _ _ this, of d]
  have kept: "spans_kept ?m r" using rows merged_fresh [of d] by simp
  then have len: "length r = length ?m" by (simp add: spans_kept_def)
  obtain i where i: "i < length ?m" and wi: "w = (i, aspect_text (?m ! i), doc_text (aspect_doc (?m ! i)))"
    using rows merged_fresh [of d] w pd by auto
  have "aspect_doc (?m ! i) = d" using merged_fresh [of d] i by (simp add: aspect_wf_def)
  moreover have "aspect_text (r ! i) = aspect_text (?m ! i)" using kept i by (simp add: spans_kept_text)
  ultimately show "\<exists>i<length (fst (process_doc d)). w = (i, aspect_text (fst (process_doc d) ! i), doc_text d)"
    using i wi len pd by auto
qed

text \<open>Every aspect of a sentence's result is well formed, in both branches.\<close>

lemma process_doc_aspects_wf: "\<forall>a\<in>set (fst (process_doc d)). aspect_wf d a"
proof (cases "scan_aspects d = []")
  case True
  then show ?thesis by (simp add: process_doc_empty substitute_aspects_wf)
next
  case False
  then show ?thesis using disambiguate_merged [of d] by (simp add: process_doc_merged)
qed

end
