(* ===== verification/Sample_Docs.thy ===== *)
theory Sample_Docs
  imports Pipeline
begin

text \<open>
  Annotated sentences used to run the model: each token is given by its text
  (lower case, so that \<open>lower_\<close> equals \<open>text\<close>), its part of speech, whether a
  space follows it, and its \<open>left_edge\<close>, as a dependency parse would give them.
\<close>

definition tok :: "string \<Rightarrow> string \<Rightarrow> bool \<Rightarrow> nat \<Rightarrow> token" where
  "tok w pos sp le =
     \<lparr>tok_text = w, tok_lower = w, tok_pos = pos, tok_ws = (if sp then '' '' else []),
      tok_left_edge = le\<rparr>"

text \<open>"the acting and the plot were great"\<close>

definition doc_acting_plot :: doc where
  "doc_acting_plot =
     [tok ''the'' ''DET'' True 0, tok ''acting'' ''NOUN'' True 0, tok ''and'' ''CCONJ'' True 2,
      tok ''the'' ''DET'' True 3, tok ''plot'' ''NOUN'' True 3, tok ''were'' ''AUX'' True 5,
      tok ''great'' ''ADJ'' False 6]"

text \<open>"the sub-plot drags", with "sub" and "-plot" parsed as two chunks\<close>

definition doc_subplot :: doc where
  "doc_subplot =
     [tok ''the'' ''DET'' True 0, tok ''sub'' ''NOUN'' False 0, tok ''-'' ''SYM'' False 2,
      tok ''plot'' ''NOUN'' True 2, tok ''drags'' ''VERB'' False 4]"

text \<open>"this long movie"\<close>

definition doc_this_movie :: doc where
  "doc_this_movie = [tok ''this'' ''DET'' True 0, tok ''long'' ''ADJ'' True 1, tok ''movie'' ''NOUN'' False 0]"

text \<open>"overall it was fine"\<close>

definition doc_overall :: doc where
  "doc_overall =
     [tok ''overall'' ''ADV'' True 0, tok ''it'' ''PRON'' True 1, tok ''was'' ''AUX'' True 0,
      tok ''fine'' ''ADJ'' False 3]"

text \<open>"the acting was good but the acting was inconsistent"\<close>

definition doc_acting_twice :: doc where
  "doc_acting_twice =
     [tok ''the'' ''DET'' True 0, tok ''acting'' ''NOUN'' True 0, tok ''was'' ''AUX'' True 0,
      tok ''good'' ''ADJ'' True 3, tok ''but'' ''CCONJ'' True 4, tok ''the'' ''DET'' True 5,
      tok ''acting'' ''NOUN'' True 5, tok ''was'' ''AUX'' True 5, tok ''inconsistent'' ''ADJ'' False 8]"

text \<open>"acting; acting": two mentions that no expansion can tell apart\<close>

definition doc_clash :: doc where
  "doc_clash = [tok ''acting'' ''NOUN'' False 0, tok '';'' ''PUNCT'' True 1, tok ''acting'' ''NOUN'' False 2]"

text \<open>"the acting was great" with the tagger disabled: every \<open>pos_\<close> is empty\<close>

definition doc_untagged :: doc where
  "doc_untagged =
     [tok ''the'' [] True 0, tok ''acting'' [] True 0, tok ''was'' [] True 0, tok ''great'' [] False 3]"

text \<open>The merged, not yet disambiguated aspects of "the acting ... the acting ...".\<close>

definition merged_acting_twice :: "aspect list" where
  "merged_acting_twice = merge_chunks doc_acting_twice (scan_aspects doc_acting_twice)"

end
