(* ===== verification/Index_Errors.thy ===== *)
theory Index_Errors
  imports Chunk_Merger
begin

text \<open>
  Reading \<open>doc[k]\<close> raises \<open>IndexError\<close> in Python when \<open>k\<close> is out of range,
  while the HOL model reads \<open>d ! k\<close>, which is some unspecified token there. This
  theory writes the code that reads tokens by a computed index once more with
  every read through \<open>py_getitem\<close>, so that an out-of-range read is the value
  \<open>Inl IndexError\<close> and propagates as the exception would (\<open>py_bind\<close>), and with
  \<open>and\<close>/\<open>or\<close> short-circuiting as in the source: a read guarded by a false
  condition is not made. The checked versions are
  \<^item> \<open>full_start_py\<close> and \<open>reduce_scan_py\<close>, the two loops of
    \<open>_reduce_noun_chunk\<close> (lines 150--175), and \<open>reduce_noun_chunk_py\<close>;
  \<^item> \<open>scan_token_py\<close> and \<open>scan_aspects_py\<close>, the token loop of \<open>__call__\<close>
    (lines 186--204);
  \<^item> \<open>expand_py\<close>, \<open>Aspect.expand\<close> (lines 52--70);
  \<^item> \<open>merge_at_py\<close>, \<open>merge_pass_py\<close> and \<open>merge_chunks_py\<close>, the merge loop
    of \<open>__call__\<close> (lines 207--215), whose reads of \<open>aspects[i-1]\<close>,
    \<open>aspects[i]\<close> and \<open>doc[aspects[i-1].stop - 1]\<close>, assignment
    \<open>aspects[i-1] = ...\<close> and \<open>del aspects[i]\<close> all raise out of range. The
    loop's \<open>range\<close> is computed once while \<open>del\<close> shortens the list.
  The lemmas show that none of these reads can fail where the code makes them, and
  that the checked versions compute what the model computes; this is what
  justifies reading tokens with \<open>!\<close> in the rest of the development.
\<close>

text \<open>Lines 151--155: \<open>for i in range(start, stop)\<close>, reading \<open>doc[i]\<close>.\<close>

fun full_start_loop_py :: "doc \<Rightarrow> nat \<Rightarrow> nat list \<Rightarrow> py_error + nat" where
  "full_start_loop_py d start0 [] = Inr start0"
| "full_start_loop_py d start0 (i # is) =
     py_bind (py_getitem d (int i)) (\<lambda>t.
       if tok_pos t \<notin> set [''X'', ''PUNCT''] \<and> tok_lower t \<noteq> possessive then Inr i
       else full_start_loop_py d start0 is)"

definition full_start_py :: "doc \<Rightarrow> nat \<Rightarrow> nat \<Rightarrow> py_error + nat" where
  "full_start_py d start0 stop0 = full_start_loop_py d start0 [start0..<stop0]"

text \<open>
  Lines 160--175. Line 161 reads \<open>doc[i]\<close>, and \<open>doc[full_start]\<close> only when
  \<open>doc[i]\<close> is a movie synonym; line 170 reads \<open>doc[i+1]\<close>, after the early
  \<open>return None\<close> of line 167 for the chunk's last token.
\<close>

fun reduce_scan_py :: "doc \<Rightarrow> nat \<Rightarrow> nat \<Rightarrow> nat list \<Rightarrow> py_error + nat option" where
  "reduce_scan_py d fs stop0 [] = Inr (Some fs)"
| "reduce_scan_py d fs stop0 (i # is) =
     py_bind (py_getitem d (int i)) (\<lambda>t.
     py_bind (if tok_lower t \<in> set movie_synonyms
              then py_bind (py_getitem d (int fs)) (\<lambda>f. Inr (tok_lower f = ''this''))
              else Inr False) (\<lambda>keep.
       if keep then Inr (Some fs)
       else if cuts_chunk t then
         (if i = stop0 - 1 then Inr None
          else py_bind (py_getitem d (int (i + 1))) (\<lambda>n.
                 if tok_text n \<in> set clean_joiners then Inr (Some (min (i + 3) (stop0 - 1)))
                 else Inr (Some (i + 1))))
       else reduce_scan_py d fs stop0 is))"

definition reduce_noun_chunk_py :: "doc \<Rightarrow> nat \<Rightarrow> nat \<Rightarrow> py_error + aspect option" where
  "reduce_noun_chunk_py d start0 stop0 =
     py_bind (full_start_py d start0 stop0) (\<lambda>fs.
     py_bind (reduce_scan_py d fs stop0 (rev [fs..<stop0])) (\<lambda>r.
       Inr (case r of None \<Rightarrow> None | Some rs \<Rightarrow> Some (aspect_init d rs stop0 (Some fs) (Some stop0)))))"

text \<open>Lines 189--204: the guard, the read \<open>word = doc[i]\<close> and the two branches.\<close>

definition scan_token_py :: "doc \<Rightarrow> nat \<times> aspect list \<Rightarrow> nat \<Rightarrow> py_error + nat \<times> aspect list" where
  "scan_token_py d st i =
     (let (min_pos, aspects) = st in
      if min_pos \<le> i then Inr (min_pos, aspects)
      else
        py_bind (py_getitem d (int i)) (\<lambda>word.
        if in_pos_whitelist (tok_pos word) then
          py_bind (reduce_noun_chunk_py d (tok_left_edge word) (i + 1)) (\<lambda>c.
            case c of
              None \<Rightarrow> Inr (min_pos, aspects)
            | Some chunk \<Rightarrow>
                if \<not> aspect_eq chunk (StrOp []) then Inr (context_start chunk, chunk # aspects)
                else Inr (min_pos, aspects))
        else if tok_lower word \<in> set non_noun_aspects then
          Inr (i, aspect_init d i (i + 1) None None # aspects)
        else Inr (min_pos, aspects)))"

fun scan_loop_py :: "doc \<Rightarrow> nat \<times> aspect list \<Rightarrow> nat list \<Rightarrow> py_error + nat \<times> aspect list" where
  "scan_loop_py d st [] = Inr st"
| "scan_loop_py d st (i # is) = py_bind (scan_token_py d st i) (\<lambda>st'. scan_loop_py d st' is)"

definition scan_aspects_py :: "doc \<Rightarrow> py_error + aspect list" where
  "scan_aspects_py d = py_bind (scan_loop_py d (length d, []) (rev [0..<length d])) (\<lambda>st. Inr (snd st))"

text \<open>\<open>Aspect.expand\<close>: each \<open>doc[...]\<close> read is the last operand of an \<open>and\<close>.\<close>

definition expand_py :: "aspect \<Rightarrow> py_error + aspect \<times> bool" where
  "expand_py a =
     (let d = aspect_doc a in
      py_bind (if 0 < context_start a \<and> expansion_left a < max_expansion_left
               then py_bind (py_getitem d (int (context_start a) - 1))
                      (\<lambda>t. Inr (tok_text t \<notin> set expand_barriers))
               else Inr False) (\<lambda>left.
      if left then
        Inr (a\<lparr>context_start_opt := Some (context_start a - 1),
               expansion_left := Suc (expansion_left a)\<rparr>, True)
      else
        py_bind (if context_stop a < length d \<and> expansion_right a < max_expansion_right
                 then py_bind (py_getitem d (int (context_stop a)))
                        (\<lambda>t. Inr (tok_text t \<notin> set expand_barriers))
                 else Inr False) (\<lambda>right.
        if right then
          Inr (a\<lparr>context_stop_opt := Some (Suc (context_stop a)),
                 expansion_right := Suc (expansion_right a)\<rparr>, True)
        else Inr (a, False))))"

text \<open>
  One iteration of the merge loop. Line 209 reads \<open>aspects[i-1]\<close> and the token
  before its end, and \<open>aspects[i]\<close> only when that token has no trailing
  whitespace (\<open>and\<close> short-circuits); lines 211--215 assign and delete.
\<close>

definition merge_at_py :: "doc \<Rightarrow> nat \<Rightarrow> aspect list \<Rightarrow> py_error + aspect list" where
  "merge_at_py d i as =
     py_bind (py_getitem as (int i - 1)) (\<lambda>a.
     py_bind (py_getitem d (int (stop a) - 1)) (\<lambda>t.
       if tok_ws t \<noteq> [] then Inr as
       else py_bind (py_getitem as (int i)) (\<lambda>b.
         if stop a \<noteq> start b then Inr as
         else py_bind (py_setitem as (int i - 1) (merge_pair d a b)) (\<lambda>as'. py_delitem as' (int i)))))"

primrec merge_pass_py :: "doc \<Rightarrow> nat \<Rightarrow> aspect list \<Rightarrow> py_error + aspect list" where
  "merge_pass_py d 0 as = Inr as"
| "merge_pass_py d (Suc i) as = py_bind (merge_at_py d (Suc i) as) (merge_pass_py d i)"

text \<open>\<open>for i in range(len(aspects) - 1, 0, -1)\<close>, the range fixed before the loop.\<close>

definition merge_chunks_py :: "doc \<Rightarrow> aspect list \<Rightarrow> py_error + aspect list" where
  "merge_chunks_py d as = merge_pass_py d (length as - 1) as"

subsection \<open>The reads stay in range\<close>

lemma full_start_loop_py_eq:
  "\<forall>k\<in>set is. k < length d \<Longrightarrow>
   full_start_loop_py d start0 is =
     Inr (case find (\<lambda>i. tok_pos (d ! i) \<notin> set [''X'', ''PUNCT''] \<and> tok_lower (d ! i) \<noteq> possessive) is of
            None \<Rightarrow> start0 | Some i \<Rightarrow> i)"
  by (induction "is") (auto simp: py_simps)

lemma full_start_py_eq: "stop0 \<le> length d \<Longrightarrow> full_start_py d start0 stop0 = Inr (full_start d start0 stop0)"
  by (simp add: full_start_py_def full_start_def full_start_loop_py_eq)

lemma reduce_scan_py_eq:
  "e \<le> length d \<Longrightarrow> \<forall>k\<in>set is. fs \<le> k \<and> k < e \<Longrightarrow>
   reduce_scan_py d fs e is = Inr (reduce_scan d fs e is)"
proof (induction "is")
  case Nil
  then show ?case by simp
next
  case (Cons i "is")
  then have i: "i < length d" "fs < length d" by auto
  have "i \<noteq> e - 1 \<Longrightarrow> i + 1 < length d" using Cons.prems by auto
  then show ?case
    using Cons i by (auto simp: py_simps keeps_this_chunk_def)
qed

lemma reduce_noun_chunk_py_eq:
  "e \<le> length d \<Longrightarrow> reduce_noun_chunk_py d s e = Inr (reduce_noun_chunk d s e)"
  by (simp add: reduce_noun_chunk_py_def reduce_noun_chunk_def full_start_py_eq reduce_scan_py_eq
      split: option.split)

lemma scan_token_py_eq: "i < length d \<Longrightarrow> scan_token_py d st i = Inr (scan_token d st i)"
  by (cases st) (simp add: scan_token_py_def scan_token_def py_simps reduce_noun_chunk_py_eq
      split: option.split)

lemma scan_loop_py_eq:
  "\<forall>k\<in>set is. k < length d \<Longrightarrow> scan_loop_py d st is = Inr (foldl (scan_token d) st is)"
  by (induction "is" arbitrary: st) (simp_all add: scan_token_py_eq)

lemma expand_py_eq:
  "context_start a \<le> length (aspect_doc a) \<Longrightarrow> expand_py a = Inr (expand a)"
  by (auto simp: expand_py_def expand_def Let_def py_simps)


lemma merge_at_py_eq:
  assumes "0 < i" "i < length as" "0 < stop (as ! (i - 1))" "stop (as ! (i - 1)) \<le> length d"
  shows "merge_at_py d i as = Inr (merge_at d i as)"
proof -
  have "py_getitem as (int i - 1) = Inr (as ! (i - 1))"
    and "py_getitem as (int i) = Inr (as ! i)"
    and "py_getitem d (int (stop (as ! (i - 1))) - 1) = Inr (d ! (stop (as ! (i - 1)) - 1))"
    and "tok_ws (py_nth d (int (stop (as ! (i - 1))) - 1)) = tok_ws (d ! (stop (as ! (i - 1)) - 1))"
    using assms by (simp_all add: py_simps)
  then show ?thesis
    using assms by (auto simp: merge_at_py_def merge_at_def joinable_def py_simps)
qed

text \<open>The merge loop on a list of well-formed aspects: every index it visits is
  still in range after the deletions before it.\<close>

lemma merge_pass_py_spec:
  "i < length as \<Longrightarrow> \<forall>a\<in>set as. aspect_wf d a \<Longrightarrow>
   merge_pass_py d i (take i as @ merge_spec d (drop i as)) = Inr (merge_spec d as)"
proof (induction i)
  case 0
  then show ?case by simp
next
  case (Suc i)
  let ?xs = "take (Suc i) as @ merge_spec d (drop (Suc i) as)"
  have ne: "merge_spec d (drop (Suc i) as) \<noteq> []" using Suc.prems(1) by simp
  have len: "Suc i < length ?xs" using Suc.prems(1) ne by (simp add: min_def)
  have xi: "?xs ! i = as ! i" using Suc.prems(1) by (simp add: nth_append)
  have "aspect_wf d (as ! i)" using Suc.prems by (simp add: nth_mem)
  then have "0 < stop (?xs ! i)" "stop (?xs ! i) \<le> length d" using xi by (auto simp: aspect_wf_def)
  then have "merge_at_py d (Suc i) ?xs = Inr (take i as @ merge_spec d (drop i as))"
    using len Suc.prems(1) by (simp add: merge_at_py_eq merge_at_step)
  then show ?case using Suc by simp
qed

lemma merge_chunks_py_eq:
  "\<forall>a\<in>set as. aspect_wf d a \<Longrightarrow> merge_chunks_py d as = Inr (merge_chunks d as)"
proof (cases as rule: rev_exhaust)
  case Nil
  then show ?thesis by (simp add: merge_chunks_py_def merge_chunks_def)
next
  case (snoc ys l)
  assume wf: "\<forall>a\<in>set as. aspect_wf d a"
  have "take (length as - 1) as @ merge_spec d (drop (length as - 1) as) = as"
    using snoc by simp
  then show ?thesis
    using merge_pass_py_spec [of "length as - 1" as d] snoc wf
    by (simp add: merge_chunks_py_def merge_chunks_eq_spec)
qed

subsection \<open>No index errors\<close>

lemma scan_aspects_py_eq: "scan_aspects_py d = Inr (scan_aspects d)"
  by (simp add: scan_aspects_py_def scan_aspects_def scan_loop_py_eq)

text \<open>
  C25 (error): the token loop and the merge loop of \<open>__call__\<close>, run one after
  the other with Python's \<open>IndexError\<close> on every list and token access, never
  raise on any sentence and compute the merged aspects of the model. In
  particular the read \<open>doc[i+1]\<close> of line 170 is safe only because the chunk's
  last token returns \<open>None\<close> first (line 166): a stop word such as "minutes" at
  the end of the sentence reaches that test.
\<close>

theorem scan_and_merge_never_raise:
  "py_bind (scan_aspects_py d) (merge_chunks_py d) = Inr (merge_chunks d (scan_aspects d))"
proof -
  have "\<forall>a\<in>set (scan_aspects d). aspect_wf d a"
    using scan_chunks_inv [of d] by (simp add: chunks_inv_def)
  then show ?thesis by (simp add: scan_aspects_py_eq merge_chunks_py_eq)
qed

text \<open>
  C26 (error): the merge loop never raises \<open>IndexError\<close> on a list of
  well-formed aspects, although its \<open>range\<close> is computed once and
  \<open>del aspects[i]\<close> shortens the list as it runs: the deletion only removes the
  element at the index just visited, so every later index is still in range. It
  computes the model's merge.
\<close>

theorem merge_chunks_never_raises:
  assumes "\<forall>a\<in>set as. aspect_wf d a"
  shows "merge_chunks_py d as = Inr (merge_chunks d as)"
  using assms by (rule merge_chunks_py_eq)

text \<open>
  C27 (error): \<open>Aspect.expand\<close> never raises \<open>IndexError\<close> on an aspect whose
  context starts inside its document: the guards \<open>context_start > 0\<close> and
  \<open>context_stop < len(doc)\<close> come before the reads they protect.
\<close>

theorem expand_never_raises:
  assumes "context_start a \<le> length (aspect_doc a)"
  shows "expand_py a = Inr (expand a)"
  using assms by (rule expand_py_eq)

end
