(* ===== verification/Spec2Isabelle.thy ===== *)
theory Spec2Isabelle
  imports Sample_Docs Index_Errors
begin

text \<open>
  \<^bold>\<open>A verified model of the aspect extractor of SetFit's span package.\<close>

  The program is one file, \<open>src/src/setfit/span/aspect_extractor.py\<close>. It takes
  sentences annotated by spaCy (tokens with text, lower-cased text, part of
  speech, trailing whitespace and the left edge of their dependency subtree) and
  returns, per sentence, the list of aspect spans an opinion may be about. Its
  parts, leaf first, and the theories that model them:
  \<^item> \<^bold>\<open>Prelude\<close>: the Python primitives the code relies on, with Python's meaning
    (\<open>py_nth\<close> negative indexing, \<open>py_del\<close> for \<open>del xs[i]\<close>, \<open>py_in_str\<close> for
    \<open>in\<close> between strings) and shared list lemmas.
  \<^item> \<^bold>\<open>Tokens\<close>: the spaCy data the code reads, a \<open>token\<close> record and a
    document as a token list, with \<open>doc[a:b]\<close> (\<open>doc_slice\<close>) and
    \<open>Span.text\<close> (\<open>span_text\<close>) after spaCy's definitions.
  \<^item> \<^bold>\<open>Aspect\<close>: class \<open>Aspect\<close> (lines 9--98) as a record with its optional
    context bounds; \<open>expand\<close> returns the new record and the Python result;
    \<open>aspect_text\<close>, \<open>aspect_context\<close> and \<open>aspect_eq\<close> (the asymmetric
    \<open>__eq__\<close>). Invariant \<open>aspect_wf\<close>: context around a non-empty reduced slice
    inside the sentence, at most 2 left and 3 right expansions.
  \<^item> \<^bold>\<open>Chunk_Reducer\<close>: the class constants (lines 104--121) and
    \<open>_reduce_noun_chunk\<close> (lines 142--177) as \<open>full_start\<close>, the backward scan
    \<open>reduce_scan\<close> and \<open>reduce_noun_chunk\<close> (\<open>None\<close> for \<open>return None\<close>).
  \<^item> \<^bold>\<open>Sentence_Scanner\<close>: the right-to-left walk of lines 186--204 as a fold of
    \<open>scan_token\<close> over the state \<open>(min_pos, aspects)\<close>.
  \<^item> \<^bold>\<open>Chunk_Merger\<close>: lines 207--215 as the index loop \<open>merge_pass\<close>, with the
    reference fold \<open>merge_spec\<close>.
  \<^item> \<^bold>\<open>Expansion_Loop\<close>: the \<open>while\<close> loop of lines 230--236 as
    \<open>expand_loop\<close>, a terminating \<open>function\<close> (measure: expansion budget left),
    as \<open>expand_loop_fuel\<close>, the same loop bounded by a number of rounds, and as
    the small-step relation \<open>loop_step\<close> over \<open>loop_state\<close> (running, or
    stopped with the warning flag), whose runs are all finite and stop.
  \<^item> \<^bold>\<open>Disambiguator\<close>: lines 224--237, the two \<open>for\<close> loops as folds of
    \<open>disambiguate_pair\<close>, also seen as one fold over the pairs in the order
    the loops visit them (\<open>pair_schedule\<close>); warnings are returned as a log.
  \<^item> \<^bold>\<open>Pipeline\<close>: class \<open>AspectExtractor\<close>. The constructor (lines 124--139)
    as \<open>extractor_init\<close>, building the record \<open>extractor\<close> (\<open>self.nlp\<close>,
    \<open>self.disabled_pipes\<close>) from a model name or a pipeline object and
    returning the calls it makes into spaCy (\<open>prefer_gpu\<close>, \<open>load\<close>);
    \<open>__call__\<close> (lines 180--241) as \<open>extract_aspects\<close>, one run of the
    pipeline and then \<open>process_doc\<close> per sentence (scan, merge, then the
    \<open>'overall'\<close> substitute or disambiguation).
  \<^item> \<^bold>\<open>Index_Errors\<close>: the code that reads tokens by a computed index
    (\<open>_reduce_noun_chunk\<close>, the token loop of \<open>__call__\<close>, \<open>Aspect.expand\<close>)
    and the merge loop, which also assigns and deletes list items, written again
    with Python's \<open>IndexError\<close> as a value on every access (\<open>py_getitem\<close>,
    \<open>py_setitem\<close>, \<open>py_delitem\<close>, \<open>py_bind\<close> of the Prelude), proved never to
    raise and to agree with the model, which justifies reading with \<open>!\<close> and
    updating with \<open>xs[i := v]\<close> elsewhere.
  \<^item> \<^bold>\<open>Sample_Docs\<close>: annotated sentences at which the witnesses apply the
    theorems.

  What is proved. Per component: the reducer's exact rejection condition and its
  result on every branch (chunk kept whole, "this ... movie" kept, cut after the
  last non-noun), and that with the tagger disabled it accepts every chunk
  without a stop word whole; the scanner's invariant (well-formed fresh aspects
  with disjoint ordered contexts) and where each aspect comes from; the merger's
  loop equals the fold (refinement), leaves no joinable neighbours, is idempotent
  and keeps the invariant, and a merged aspect's text is the two parts' texts
  joined; \<open>expand\<close> keeps well-formedness and uses one unit of budget when it
  succeeds; the \<open>while\<close> loop stops within eleven rounds and ends with distinct
  contexts or a warning, and every run of its step relation is finite and stops;
  the ordinal of every aspect is the number of earlier aspects with the same
  text, and two mentions of a text that occurs exactly twice end with different
  contexts or a logged warning (spec section 8). Across components (this
  theory): every aspect of a sentence's result is well formed, the reduced
  slices are disjoint and in order, ordinals count earlier mentions, the
  placeholder case returns one-token aspects at the placeholder's positions,
  every context extends its merged chunk's context by exactly the expansions
  counted (at most 2 left, 3 right), and every logged warning names an index of
  the result with that aspect's text and the sentence's text. No
  \<open>IndexError\<close> can occur: the scanner followed by the merger never raises on
  any sentence (the reducer's \<open>doc[i+1]\<close> read is protected by the early
  \<open>return None\<close> before it), the merge loop never raises on well-formed aspects
  although its \<open>range\<close> is fixed before \<open>del\<close> shortens the list, and
  \<open>expand\<close> never raises on an aspect inside its document.

  Bounds. The only loop without a structural measure is the \<open>while\<close> of line
  230; every round that does not stop uses up one of the at most \<open>2 + 3\<close>
  expansions of each of the two aspects, so \<open>budget ai + budget aj + 1 \<le> 11\<close>
  rounds suffice (\<open>expand_loop_terminates\<close>).

  Findings the model shows. (1) \<open>POS_WHITELIST = ('NOUN')\<close> is a string, so the
  test is a substring test: the empty tag, which every token carries when the
  tagger is disabled through \<open>spacy_disable_pipes\<close>, counts as a noun, and whole
  clauses become aspects (\<open>untagged_chunk_kept_whole\<close>). (2) Spec section 8's
  disambiguation property holds for a text that occurs exactly twice
  (\<open>disambiguate_two_mentions\<close>) but not in general: a later pair can widen an
  aspect after an earlier pair was told apart, so in "acted well, acted, acted
  well" the first and third mentions end with the same context and no warning.
  (3) Placeholder aspects are never disambiguated: several \<open>'overall'\<close> tokens
  all get ordinal 0 (\<open>process_doc_substitute\<close>). (4) \<open>__call__\<close> is annotated as
  returning \<open>List[Aspect]\<close> as second component, but returns a list of lists,
  one per document.

  Not modelled: spaCy itself, a library the code only calls. Loading a model
  (\<open>spacy.load\<close>) is the parameter \<open>load\<close>, a loaded pipeline is the function
  \<open>nlp.pipe(texts, disable=...)\<close>, and \<open>prefer_gpu\<close> is recorded as a call
    without modelling the device it selects; the constructor and \<open>__call__\<close> are
  modelled (\<open>extractor_init\<close>, \<open>extract_aspects\<close>) but only pass these
  parameters on, so no property is stated of them beyond \<open>process_doc\<close>'s.
  The free-form fields \<open>label\<close> and \<open>categories\<close> are carried but never read.
  Python integers are \<open>nat\<close>: every index the code computes is non-negative
  except \<open>stop - 1\<close> in the merger, which \<open>py_nth\<close> reads as Python does.
  Out-of-range token reads, which would raise in Python, cannot happen on the
  aspects the pipeline builds (their slices lie inside the sentence).
\<close>

section \<open>Properties of the whole extraction\<close>

text \<open>
  C1 (invariant): every aspect the extractor returns for a sentence is well formed:
  its context contains its reduced slice, the reduced slice is not empty, both lie
  inside the sentence, and at most 2 left and 3 right expansions were made.
\<close>

theorem process_doc_wf: "\<forall>a\<in>set (fst (process_doc d)). aspect_wf d a"
  by (rule process_doc_aspects_wf)

text \<open>
  C2 (safety): the reduced slices of a sentence's aspects are pairwise disjoint and
  in left-to-right order.
\<close>

theorem process_doc_spans_ordered: "spans_ordered (fst (process_doc d))"
proof (cases "scan_aspects d = []")
  case True
  then show ?thesis by (simp add: process_doc_empty substitute_aspects_ordered)
next
  case False
  have "spans_ordered (merge_chunks d (scan_aspects d))"
    using merged_chunks_inv [of d]
    by (auto simp: chunks_inv_def intro: contexts_disjoint_spans_ordered)
  moreover have "spans_kept (merge_chunks d (scan_aspects d))
      (fst (disambiguate (merge_chunks d (scan_aspects d))))"
    using disambiguate_merged [of d] by simp
  ultimately show ?thesis
    using False by (simp add: process_doc_merged spans_kept_ordered)
qed

text \<open>
  C18 (functional): when the scanner finds aspects, the ordinal of each aspect of the
  result is the number of aspects before it with the same reduced text.
\<close>

theorem process_doc_ordinals:
  assumes "scan_aspects d \<noteq> []" and "j < length (fst (process_doc d))"
  shows "ordinal (fst (process_doc d) ! j) =
    length (filter (\<lambda>i. aspect_text (fst (process_doc d) ! i) = aspect_text (fst (process_doc d) ! j))
      [0..<j])"
proof -
  let ?m = "merge_chunks d (scan_aspects d)"
  obtain r ws where r: "disambiguate ?m = (r, ws)" by (cases "disambiguate ?m") auto
  have pd: "fst (process_doc d) = r" using assms(1) r by (simp add: process_doc_merged)
  have kept: "spans_kept ?m r" using disambiguate_merged [of d] r by simp
  then have len: "length r = length ?m" by (simp add: spans_kept_def)
  have "foldl disambiguate_row (?m, []) [0..<length ?m - 1] = (r, ws)"
    using r by (simp add: disambiguate_def)
  from disambiguate_rows [OF _ _ this, of d] merged_fresh [of d] assms(2) pd len
  have "ordinal (r ! j) = length (filter (\<lambda>i. aspect_text (?m ! i) = aspect_text (?m ! j)) [0..<j])"
    by (auto simp: min_def)
  also have "\<dots> = length (filter (\<lambda>i. aspect_text (r ! i) = aspect_text (r ! j)) [0..<j])"
    using kept assms(2) pd len by (auto simp: spans_kept_text intro!: arg_cong [where f = length] filter_cong)
  finally show ?thesis using pd by simp
qed

text \<open>
  C19 (functional): when the scanner finds no aspect, the result has one aspect per
  occurrence of the placeholder \<open>'overall'\<close>, in order, each the single token with no
  wider context and ordinal 0, and nothing is logged.
\<close>

theorem process_doc_substitute:
  assumes "scan_aspects d = []"
  shows "map start (fst (process_doc d)) = filter (\<lambda>i. tok_lower (d ! i) = noun_substitute) [0..<length d]
    \<and> (\<forall>a\<in>set (fst (process_doc d)). stop a = Suc (start a) \<and> context_start a = start a
         \<and> context_stop a = stop a \<and> ordinal a = 0)
    \<and> snd (process_doc d) = []"
  using assms by (auto simp: process_doc_empty substitute_aspects_def comp_def)

text \<open>
  C21 (bounds): disambiguation only widens contexts, by the expansions it counts:
  an aspect of the result starts its context \<open>expansion_left\<close> tokens before the
  merged chunk it comes from and ends it \<open>expansion_right\<close> tokens after its reduced
  slice, at most 2 to the left and 3 to the right.
\<close>

theorem process_doc_context_growth:
  assumes "scan_aspects d \<noteq> []" and "j < length (fst (process_doc d))"
  shows "context_start (merge_chunks d (scan_aspects d) ! j)
           = context_start (fst (process_doc d) ! j) + expansion_left (fst (process_doc d) ! j)
    \<and> context_stop (fst (process_doc d) ! j)
           = stop (fst (process_doc d) ! j) + expansion_right (fst (process_doc d) ! j)
    \<and> expansion_left (fst (process_doc d) ! j) \<le> 2 \<and> expansion_right (fst (process_doc d) ! j) \<le> 3"
proof -
  let ?m = "merge_chunks d (scan_aspects d)"
  obtain r ws where r: "disambiguate ?m = (r, ws)" by (cases "disambiguate ?m") auto
  have pd: "fst (process_doc d) = r" using assms(1) r by (simp add: process_doc_merged)
  have kept: "spans_kept ?m r" and wf: "\<forall>a\<in>set r. aspect_wf d a"
    using disambiguate_merged [of d] r by simp_all
  then have len: "length r = length ?m" by (simp add: spans_kept_def)
  have j: "j < length ?m" using assms(2) pd len by simp
  have "?m ! j \<in> set ?m" using j by (rule nth_mem)
  then have fresh: "fresh_aspect (?m ! j)"
    using merged_chunks_inv [of d] by (simp add: chunks_inv_def)
  have "r ! j \<in> set r" using j len by simp
  then have "aspect_wf d (r ! j)" using wf by blast
  then show ?thesis
    using kept j fresh pd
    by (auto simp: spans_kept_def fresh_aspect_def aspect_wf_def max_expansion_left_def max_expansion_right_def)
qed

text \<open>
  C22 (safety): every warning the extractor logs for a sentence names an aspect of the
  result by its index, with that aspect's reduced text and the sentence's text, as
  in the message of line 233.
\<close>

theorem process_doc_log:
  "\<forall>w\<in>set (snd (process_doc d)).
     \<exists>i<length (fst (process_doc d)). w = (i, aspect_text (fst (process_doc d) ! i), doc_text d)"
  using process_doc_log_entries [of d] by (cases "scan_aspects d = []") (simp_all add: process_doc_empty)

section \<open>Witnesses\<close>

text \<open>Each theorem with a hypothesis, applied at a concrete sentence where its
  hypotheses hold.\<close>

theorem process_doc_wf_witness:
  "length (fst (process_doc doc_acting_plot)) = 2
   \<and> aspect_wf doc_acting_plot (fst (process_doc doc_acting_plot) ! 0)
   \<and> aspect_wf doc_acting_plot (fst (process_doc doc_acting_plot) ! 1)"
proof -
  have l: "length (fst (process_doc doc_acting_plot)) = 2" by code_simp
  then have "fst (process_doc doc_acting_plot) ! 0 \<in> set (fst (process_doc doc_acting_plot))"
    and "fst (process_doc doc_acting_plot) ! 1 \<in> set (fst (process_doc doc_acting_plot))"
    by (simp_all add: nth_mem)
  then show ?thesis using l process_doc_wf [of doc_acting_plot] by blast
qed

theorem reduce_noun_chunk_None_iff_witness:
  "reduce_noun_chunk doc_acting_plot 5 6 = None"
proof -
  have "full_start doc_acting_plot 5 6 < 6
    \<and> \<not> keeps_this_chunk doc_acting_plot (full_start doc_acting_plot 5 6) (6 - 1)
    \<and> cuts_chunk (doc_acting_plot ! (6 - 1))" by code_simp
  then show ?thesis using reduce_noun_chunk_None_iff [of doc_acting_plot 5 6] by blast
qed

theorem reduce_keeps_this_movie_witness:
  "reduce_noun_chunk doc_this_movie 0 3 = Some (aspect_init doc_this_movie 0 3 (Some 0) (Some 3))"
proof -
  have h1: "0 = full_start doc_this_movie 0 3" by code_simp
  have h2: "keeps_this_chunk doc_this_movie 0 2" by code_simp
  have h3: "\<forall>j\<in>{2<..<3::nat}. \<not> cuts_chunk (doc_this_movie ! j)" by code_simp
  show ?thesis using reduce_keeps_this_movie [OF h1 _ _ h2 h3] by simp
qed

theorem reduce_cut_position_witness:
  "reduce_noun_chunk doc_acting_plot 3 5 = Some (aspect_init doc_acting_plot 4 5 (Some 3) (Some 5))"
proof -
  have h1: "3 = full_start doc_acting_plot 3 5" by code_simp
  have h4: "cuts_chunk (doc_acting_plot ! 3)" by code_simp
  have h5: "\<not> keeps_this_chunk doc_acting_plot 3 3" by code_simp
  have h6: "\<forall>j\<in>{3<..<5::nat}. \<not> cuts_chunk (doc_acting_plot ! j) \<and> \<not> keeps_this_chunk doc_acting_plot 3 j"
    by code_simp
  have j: "tok_text (doc_acting_plot ! Suc 3) \<notin> set clean_joiners" by code_simp
  show ?thesis using reduce_cut_position [OF h1 _ _ h4 h5 h6] j by simp
qed

theorem reduce_keeps_whole_chunk_witness:
  "reduce_noun_chunk doc_subplot 2 4 = Some (aspect_init doc_subplot 2 4 (Some 2) (Some 4))"
proof -
  have h1: "2 = full_start doc_subplot 2 4" by code_simp
  have h2: "\<forall>j\<in>{2..<4::nat}. \<not> cuts_chunk (doc_subplot ! j)" by code_simp
  show ?thesis by (rule reduce_keeps_whole_chunk [OF h1 h2])
qed

theorem scan_aspects_inv_witness:
  "length (scan_aspects doc_acting_plot) = 2
   \<and> aspect_wf doc_acting_plot (scan_aspects doc_acting_plot ! 0)
   \<and> fresh_aspect (scan_aspects doc_acting_plot ! 1)
   \<and> contexts_disjoint (scan_aspects doc_acting_plot)"
proof -
  have l: "length (scan_aspects doc_acting_plot) = 2" by code_simp
  then have "scan_aspects doc_acting_plot ! 0 \<in> set (scan_aspects doc_acting_plot)"
    and "scan_aspects doc_acting_plot ! 1 \<in> set (scan_aspects doc_acting_plot)"
    by (simp_all add: nth_mem)
  then show ?thesis using l scan_aspects_inv [of doc_acting_plot] by blast
qed

theorem scan_aspects_origin_witness:
  "length (scan_aspects doc_subplot) = 2 \<and> scan_origin doc_subplot (scan_aspects doc_subplot ! 1)"
proof -
  have l: "length (scan_aspects doc_subplot) = 2" by code_simp
  then have "scan_aspects doc_subplot ! 1 \<in> set (scan_aspects doc_subplot)" by (simp add: nth_mem)
  then show ?thesis using l scan_aspects_origin [of doc_subplot] by blast
qed

theorem merge_chunks_no_joinable_witness:
  "length (scan_aspects doc_subplot) = 2
   \<and> no_joinable doc_subplot (merge_chunks doc_subplot (scan_aspects doc_subplot))"
proof -
  have "length (scan_aspects doc_subplot) = 2" by code_simp
  then show ?thesis using merge_chunks_no_joinable [of doc_subplot] by simp
qed

theorem merge_chunks_inv_witness:
  "chunks_inv doc_subplot (merge_chunks doc_subplot (scan_aspects doc_subplot))"
proof -
  have "chunks_inv doc_subplot (scan_aspects doc_subplot)" by code_simp
  then show ?thesis by (rule merge_chunks_inv)
qed

theorem disambiguate_ordinal_witness:
  "ordinal (fst (disambiguate merged_acting_twice) ! 1) = 1"
proof -
  have h1: "\<forall>a\<in>set merged_acting_twice. ordinal a = 0" by code_simp
  have h2: "1 < length merged_acting_twice" by code_simp
  have c: "length (filter (\<lambda>i. aspect_text (merged_acting_twice ! i) = aspect_text (merged_acting_twice ! 1))
      [0..<1]) = 1" by code_simp
  show ?thesis using disambiguate_ordinal [OF h1 h2] c by simp
qed

theorem disambiguate_keeps_spans_witness:
  "spans_kept merged_acting_twice (fst (disambiguate merged_acting_twice))
   \<and> aspect_wf doc_acting_twice (fst (disambiguate merged_acting_twice) ! 1)"
proof -
  have h1: "\<forall>a\<in>set merged_acting_twice. ordinal a = 0" by code_simp
  have h2: "\<forall>a\<in>set merged_acting_twice. aspect_wf doc_acting_twice a" by code_simp
  have l: "length (fst (disambiguate merged_acting_twice)) = 2" by code_simp
  then have "fst (disambiguate merged_acting_twice) ! 1 \<in> set (fst (disambiguate merged_acting_twice))"
    by (simp add: nth_mem)
  then show ?thesis using disambiguate_keeps_spans [OF h1, of doc_acting_twice] h2 by blast
qed

theorem expand_loop_terminates_witness:
  "expand_loop_fuel 11 (merged_acting_twice ! 0) (merged_acting_twice ! 1)
   = Some (expand_loop (merged_acting_twice ! 0) (merged_acting_twice ! 1))"
proof -
  have "aspect_wf doc_acting_twice (merged_acting_twice ! 0)"
    and "aspect_wf doc_acting_twice (merged_acting_twice ! 1)" by code_simp+
  then show ?thesis by (rule expand_loop_terminates)
qed

theorem expand_loop_outcome_witness:
  "aspect_context (fst (expand_loop (merged_acting_twice ! 0) (merged_acting_twice ! 1)))
   \<noteq> aspect_context (fst (snd (expand_loop (merged_acting_twice ! 0) (merged_acting_twice ! 1))))"
proof -
  have w: "\<not> snd (snd (expand_loop (merged_acting_twice ! 0) (merged_acting_twice ! 1)))" by code_simp
  show ?thesis
    using expand_loop_outcome [of "merged_acting_twice ! 0" "merged_acting_twice ! 1"] w
    by (auto split: prod.splits)
qed

theorem process_doc_ordinals_witness:
  "ordinal (fst (process_doc doc_acting_twice) ! 1) = 1"
proof -
  have h1: "scan_aspects doc_acting_twice \<noteq> []" by code_simp
  have h2: "1 < length (fst (process_doc doc_acting_twice))" by code_simp
  have c: "length (filter (\<lambda>i. aspect_text (fst (process_doc doc_acting_twice) ! i)
      = aspect_text (fst (process_doc doc_acting_twice) ! 1)) [0..<1]) = 1" by code_simp
  show ?thesis using process_doc_ordinals [OF h1 h2] c by simp
qed

theorem process_doc_substitute_witness:
  "map start (fst (process_doc doc_overall)) = [0] \<and> snd (process_doc doc_overall) = []"
proof -
  have h: "scan_aspects doc_overall = []" by code_simp
  have f: "filter (\<lambda>i. tok_lower (doc_overall ! i) = noun_substitute) [0..<length doc_overall] = [0]"
    by code_simp
  show ?thesis using process_doc_substitute [OF h] f by simp
qed

theorem expand_preserves_wf_witness:
  "aspect_wf doc_acting_twice (fst (expand (merged_acting_twice ! 0)))
   \<and> budget (fst (expand (merged_acting_twice ! 0))) = 4"
proof -
  let ?a = "merged_acting_twice ! 0"
  have h: "aspect_wf doc_acting_twice ?a" by code_simp
  have b: "budget ?a = 5" and ok: "snd (expand ?a)" by code_simp+
  show ?thesis using expand_preserves_wf [OF h] b ok by simp
qed

theorem process_doc_log_witness:
  "snd (process_doc doc_clash) = [(0, aspect_text (fst (process_doc doc_clash) ! 0), doc_text doc_clash)]"
proof -
  have l: "snd (process_doc doc_clash) = [hd (snd (process_doc doc_clash))]"
    and n: "length (fst (process_doc doc_clash)) = 2"
    and t: "aspect_text (fst (process_doc doc_clash) ! 0) = aspect_text (fst (process_doc doc_clash) ! 1)"
    and z: "fst (hd (snd (process_doc doc_clash))) = 0"
    by code_simp+
  have "hd (snd (process_doc doc_clash)) \<in> set (snd (process_doc doc_clash))"
    by (subst l) simp
  then obtain i where "i < 2"
    "hd (snd (process_doc doc_clash)) = (i, aspect_text (fst (process_doc doc_clash) ! i), doc_text doc_clash)"
    using process_doc_log [of doc_clash] n by auto
  then show ?thesis using l z by (metis fst_conv)
qed

theorem process_doc_context_growth_witness:
  "context_start (merged_acting_twice ! 0) = context_start (fst (process_doc doc_acting_twice) ! 0) + 0
   \<and> context_stop (fst (process_doc doc_acting_twice) ! 0) = stop (fst (process_doc doc_acting_twice) ! 0) + 1"
proof -
  have h1: "scan_aspects doc_acting_twice \<noteq> []" and h2: "0 < length (fst (process_doc doc_acting_twice))"
    by code_simp+
  have e: "expansion_left (fst (process_doc doc_acting_twice) ! 0) = 0"
    and f: "expansion_right (fst (process_doc doc_acting_twice) ! 0) = 1" by code_simp+
  show ?thesis using process_doc_context_growth [OF h1 h2] e f by (simp add: merged_acting_twice_def)
qed
theorem merge_pair_text_witness:
  "aspect_text (merge_pair doc_subplot (scan_aspects doc_subplot ! 0) (scan_aspects doc_subplot ! 1)) = ''sub-plot''"
proof -
  have h: "aspect_wf doc_subplot (scan_aspects doc_subplot ! 0)" "aspect_wf doc_subplot (scan_aspects doc_subplot ! 1)"
    "joinable doc_subplot (scan_aspects doc_subplot ! 0) (scan_aspects doc_subplot ! 1)" by code_simp+
  have t: "aspect_text (scan_aspects doc_subplot ! 0) @ aspect_text (scan_aspects doc_subplot ! 1) = ''sub-plot''"
    by code_simp
  show ?thesis using merge_pair_text [OF h] t by simp
qed

theorem merge_chunks_never_raises_witness:
  "merge_chunks_py doc_subplot (scan_aspects doc_subplot)
     = Inr (merge_chunks doc_subplot (scan_aspects doc_subplot))"
proof -
  have "\<forall>a\<in>set (scan_aspects doc_subplot). aspect_wf doc_subplot a" by code_simp
  then show ?thesis by (rule merge_chunks_never_raises)
qed

theorem expand_never_raises_witness:
  "expand_py (merged_acting_twice ! 0) = Inr (expand (merged_acting_twice ! 0))"
proof -
  have "context_start (merged_acting_twice ! 0) \<le> length (aspect_doc (merged_acting_twice ! 0))"
    by code_simp
  then show ?thesis by (rule expand_never_raises)
qed

theorem untagged_chunk_kept_whole_witness:
  "reduce_noun_chunk doc_untagged 0 3 = Some (aspect_init doc_untagged 0 3 (Some 0) (Some 3))"
proof -
  have h: "(0::nat) < 3" "\<forall>k\<in>{0..<3::nat}. tok_pos (doc_untagged ! k) = [] \<and> tok_lower (doc_untagged ! k) \<notin> set chunk_stop_words"
    "tok_lower (doc_untagged ! 0) \<noteq> possessive" by code_simp+
  show ?thesis by (rule untagged_chunk_kept_whole [OF h])
qed

theorem disambiguate_two_mentions_witness:
  "aspect_context (fst (disambiguate merged_acting_twice) ! 0)
   \<noteq> aspect_context (fst (disambiguate merged_acting_twice) ! 1)"
proof -
  have h: "(0::nat) < 1" "1 < length merged_acting_twice"
    "aspect_text (merged_acting_twice ! 0) = aspect_text (merged_acting_twice ! 1)"
    "\<forall>k<length merged_acting_twice. k \<noteq> 0 \<longrightarrow> k \<noteq> 1 \<longrightarrow>
       aspect_text (merged_acting_twice ! k) \<noteq> aspect_text (merged_acting_twice ! 0)"
    by code_simp+
  have l: "snd (disambiguate merged_acting_twice) = []" by code_simp
  show ?thesis using disambiguate_two_mentions [OF h] l by simp
qed

end
